theory Spec2Isabelle
  imports Main
begin

section \<open>The root panel of the graph library (rootpanel.js)\<close>

text \<open>
  The panel is a JavaScript object that owns a DOM element (its frame), a table of
  listener arrays, a table of dispatch closures and an interval timer. The model is a
  record of the panel's fields together with the part of the host it touches: the
  interval timers it started, the resize handlers it attached to the window, the reflow
  requests it issued and the log of listener invocations. Every method takes the state
  and returns the new state.
\<close>

subsection \<open>Values\<close>

type_synonym elem = nat
type_synonym event_name = string
type_synonym raw_event = nat
type_synonym timer = nat

text \<open>
  A listener is a JavaScript function. The model knows it by a number and by the raw
  events on which a call of it raises instead of returning.
\<close>

datatype callback = Callback (cb_id: nat) (cb_raises: "raw_event \<Rightarrow> bool")

text \<open>
  An option documented as "value or function" is either the plain value or a function
  that produces one when called.
\<close>

datatype 'a producer = Plain 'a | Producing 'a

datatype size = SizeString string | SizeNumber int

text \<open>
  The options object. A field is \<open>None\<close> when the key is absent. The key names
  \<open>id\<close>, \<open>left\<close>, \<open>top\<close>, \<open>width\<close> and \<open>height\<close> carry the prefix
  \<open>opt_\<close>.
\<close>

record options =
  container :: "elem option"
  opt_id :: "string option"
  className :: "string producer option"
  opt_left :: "size producer option"
  opt_top :: "size producer option"
  opt_width :: "size producer option"
  opt_height :: "size producer option"
  autoResize :: "bool producer option"

definition no_options :: options where
  "no_options = \<lparr>container = None, opt_id = None, className = None, opt_left = None,
     opt_top = None, opt_width = None, opt_height = None, autoResize = None\<rparr>"

text \<open>
  The dispatch closure created by \<open>_updateEventEmitters\<close> captures the listener array
  of its event by reference: it is modelled by the address of that array in the store
  \<open>arrays\<close>.
\<close>

datatype emitter = Emitter nat

text \<open>
  The frame is the DOM element created by \<open>repaint\<close>. Each style field holds the
  string that a read of the property returns; the offsets and client sizes are computed
  by the host's layout; \<open>eventListeners\<close> is the element's list of attached handlers,
  in the order of attachment.
\<close>

record frame =
  frame_className :: string
  parentNode :: "elem option"
  style_top :: string
  style_left :: string
  style_width :: string
  style_height :: string
  offsetTop :: int
  offsetLeft :: int
  offsetWidth :: int
  offsetHeight :: int
  clientWidth :: int
  clientHeight :: int
  eventListeners :: "(event_name \<times> emitter) list"

text \<open>
  The panel. \<open>listeners\<close> and \<open>emitters\<close> are JavaScript objects used as tables, kept
  as association lists in insertion order; \<open>listeners\<close> maps an event name to the
  address of its array in \<open>arrays\<close>. The cached geometry \<open>this.top\<close>, \<open>this.left\<close>,
  \<open>this.width\<close>, \<open>this.height\<close> is \<open>None\<close> while undefined. The last five fields are
  the host: the interval timers that are running, the next timer handle (handles are
  positive, hence truthy), the number of \<open>checkSize\<close> handlers attached to the window,
  the number of calls of \<open>requestReflow\<close>, and the listener calls made so far.
\<close>

record rootpanel =
  panel_id :: string
  options :: options
  listeners :: "(event_name \<times> nat) list"
  arrays :: "callback list list"
  emitters :: "(event_name \<times> emitter) list option"
  frame :: "frame option"
  watchTimer :: "timer option"
  this_top :: "int option"
  this_left :: "int option"
  this_width :: "int option"
  this_height :: "int option"
  activeTimers :: "timer list"
  nextTimer :: timer
  resizeListeners :: nat
  reflowRequests :: nat
  calls :: "(callback \<times> raw_event) list"

datatype error = Error string | TypeError

definition no_container_error :: error where
  "no_container_error = Error ''Cannot repaint root panel: no container attached''"

subsection \<open>The host's objects\<close>

text \<open>
  A write to a style property of an element stores the value in its serialised form,
  and a read returns what is stored. Of the serialisation the model has the rule that
  the panel's own defaults meet: a zero length written without a unit reads back with
  the unit \<open>px\<close>. Every other string reads back as written, which is what the host
  does for pixel lengths and percentages in their usual form (\<open>120px\<close>, \<open>100%\<close>).
\<close>

definition readBack :: "string \<Rightarrow> string" where
  "readBack s = (if s = ''0'' then ''0px'' else s)"

text \<open>
  The property names that every JavaScript object inherits from \<open>Object.prototype\<close>.
  On the panel's tables \<open>listeners\<close> and \<open>emitters\<close>, which are plain objects, a
  lookup \<open>table[name]\<close> under one of these names yields the inherited member, and
  \<open>name in table\<close> is true.
\<close>

definition objectPrototypeNames :: "string list" where
  "objectPrototypeNames =
     [''constructor'', ''toString'', ''toLocaleString'', ''valueOf'', ''hasOwnProperty'',
      ''isPrototypeOf'', ''propertyIsEnumerable'', ''__proto__'', ''__defineGetter__'',
      ''__defineSetter__'', ''__lookupGetter__'', ''__lookupSetter__'']"

subsection \<open>Helpers of the library that the panel calls\<close>

text \<open>
  Modelled from the spec: \<open>util.option.asBoolean\<close> is not part of the source file. The
  auto-resize option is a boolean or a function producing one; an absent option is not
  enabled.
\<close>

definition asBoolean :: "bool producer option \<Rightarrow> bool" where
  "asBoolean v = (case v of None \<Rightarrow> False | Some (Plain b) \<Rightarrow> b | Some (Producing b) \<Rightarrow> b)"

text \<open>
  Modelled from the spec: \<open>util.option.asString\<close> is not part of the source file. The
  class name is a string or a function producing one.
\<close>

definition asString :: "string producer \<Rightarrow> string" where
  "asString v = (case v of Plain s \<Rightarrow> s | Producing s \<Rightarrow> s)"

function string_of_nat :: "nat \<Rightarrow> string" where
  "string_of_nat n =
     (if n < 10 then [''0123456789'' ! n]
      else string_of_nat (n div 10) @ [''0123456789'' ! (n mod 10)])"
  by pat_completeness auto
termination
  by (relation "measure id") auto

definition string_of_int :: "int \<Rightarrow> string" where
  "string_of_int i = (if i < 0 then ''-'' @ string_of_nat (nat (- i)) else string_of_nat (nat i))"

text \<open>
  Modelled from the spec: \<open>util.option.asSize\<close> is not part of the source file. A size
  is a string, a number (of pixels) or a function producing one of them; a string is
  taken as it is, a number gets the unit \<open>px\<close>, and an absent option yields the default.
\<close>

definition asSize :: "size producer option \<Rightarrow> string \<Rightarrow> string" where
  "asSize v defaultValue =
     (case v of
        None \<Rightarrow> defaultValue
      | Some p \<Rightarrow>
          (case (case p of Plain s \<Rightarrow> s | Producing s \<Rightarrow> s) of
             SizeString s \<Rightarrow> s
           | SizeNumber n \<Rightarrow> string_of_int n @ ''px''))"

text \<open>
  Modelled from the spec: \<open>util.addClassName\<close> is not part of the source file. It adds
  the class name to the class string of the element.
\<close>

definition addClassName :: "frame \<Rightarrow> string \<Rightarrow> frame" where
  "addClassName f c = f\<lparr>frame_className := frame_className f @ '' '' @ c\<rparr>"

text \<open>
  Modelled from the spec: \<open>Component.prototype.setOptions\<close> is not part of the source
  file. It stores the supplied options over the current ones, key by key.
\<close>

definition override :: "'a option \<Rightarrow> 'a option \<Rightarrow> 'a option" where
  "override old new = (case new of None \<Rightarrow> old | Some v \<Rightarrow> Some v)"

definition Component_setOptions :: "rootpanel \<Rightarrow> options \<Rightarrow> rootpanel" where
  "Component_setOptions p opts =
     p\<lparr>options :=
         \<lparr>container = override (container (options p)) (container opts),
          opt_id = override (opt_id (options p)) (opt_id opts),
          className = override (className (options p)) (className opts),
          opt_left = override (opt_left (options p)) (opt_left opts),
          opt_top = override (opt_top (options p)) (opt_top opts),
          opt_width = override (opt_width (options p)) (opt_width opts),
          opt_height = override (opt_height (options p)) (opt_height opts),
          autoResize = override (autoResize (options p)) (autoResize opts)\<rparr>\<rparr>"

text \<open>
  Modelled from the spec: \<open>requestReflow\<close> is not part of the source file. It hands a
  reflow request to the external scheduler; the model counts the requests.
\<close>

definition requestReflow :: "rootpanel \<Rightarrow> rootpanel" where
  "requestReflow p = p\<lparr>reflowRequests := Suc (reflowRequests p)\<rparr>"

text \<open>
  JavaScript truthiness of the values the panel tests: a string is truthy unless empty,
  a function is truthy, an absent key is not.
\<close>

definition truthy_className :: "string producer option \<Rightarrow> bool" where
  "truthy_className v =
     (case v of None \<Rightarrow> False | Some (Plain s) \<Rightarrow> s \<noteq> [] | Some (Producing s) \<Rightarrow> True)"

definition truthy_autoResize :: "bool producer option \<Rightarrow> bool" where
  "truthy_autoResize v =
     (case v of None \<Rightarrow> False | Some (Plain b) \<Rightarrow> b | Some (Producing b) \<Rightarrow> True)"

subsection \<open>The resize watch\<close>

text \<open>\<open>_unwatch\<close>: clears the interval timer, if there is one, and forgets its handle.\<close>

definition unwatch :: "rootpanel \<Rightarrow> rootpanel" where
  "unwatch p =
     (case watchTimer p of
        None \<Rightarrow> p
      | Some t \<Rightarrow> p\<lparr>activeTimers := removeAll t (activeTimers p), watchTimer := None\<rparr>)"

text \<open>
  \<open>checkSize\<close>, the closure that \<open>_watch\<close> hands to the window and to the timer: it
  cancels the watch when the option is no longer truthy, and otherwise requests a reflow
  when the frame exists and its client size differs from the cached size.
\<close>

definition checkSize :: "rootpanel \<Rightarrow> rootpanel" where
  "checkSize p =
     (if \<not> truthy_autoResize (autoResize (options p)) then unwatch p
      else (case frame p of
              None \<Rightarrow> p
            | Some f \<Rightarrow>
                if Some (clientWidth f) \<noteq> this_width p \<or> Some (clientHeight f) \<noteq> this_height p
                then requestReflow p else p))"

text \<open>
  \<open>_watch\<close>: stops a running watch, attaches \<open>checkSize\<close> to the window's resize
  signal and starts an interval timer that calls it.
\<close>

definition watch :: "rootpanel \<Rightarrow> rootpanel" where
  "watch p =
     (let q = unwatch p
      in q\<lparr>resizeListeners := Suc (resizeListeners q),
            watchTimer := Some (nextTimer q),
            activeTimers := nextTimer q # activeTimers q,
            nextTimer := Suc (nextTimer q)\<rparr>)"

subsection \<open>Options and construction\<close>

definition setOptions :: "rootpanel \<Rightarrow> options \<Rightarrow> rootpanel" where
  "setOptions p opts =
     (let q = (case autoResize opts of
                 None \<Rightarrow> p
               | Some v \<Rightarrow> if asBoolean (Some v) then watch p else unwatch p)
      in Component_setOptions q opts)"

text \<open>
  The constructor; the identifier drawn by \<open>util.randomUUID\<close> is an argument.
\<close>

definition RootPanel :: "string \<Rightarrow> options \<Rightarrow> rootpanel" where
  "RootPanel uuid opts =
     setOptions
       \<lparr>panel_id = uuid,
        options = no_options\<lparr>autoResize := Some (Plain True)\<rparr>,
        listeners = [], arrays = [], emitters = None, frame = None, watchTimer = None,
        this_top = None, this_left = None, this_width = None, this_height = None,
        activeTimers = [], nextTimer = 1, resizeListeners = 0, reflowRequests = 0,
        calls = []\<rparr>
       opts"

subsection \<open>Event registration and dispatch\<close>

text \<open>
  One round of the loop of \<open>_updateEventEmitters\<close>, for the event \<open>ev\<close> whose listener
  array is at address \<open>r\<close>. The test \<open>event in me.emitters\<close> is true for the keys
  the panel has stored and for the inherited names.
\<close>

definition updateEmitter :: "rootpanel \<Rightarrow> event_name \<times> nat \<Rightarrow> rootpanel" where
  "updateEmitter p en =
     (let q = (case emitters p of None \<Rightarrow> p\<lparr>emitters := Some []\<rparr> | Some _ \<Rightarrow> p);
          ems = (case emitters q of None \<Rightarrow> [] | Some es \<Rightarrow> es)
      in if fst en \<notin> fst ` set ems \<and> fst en \<notin> set objectPrototypeNames
         then (case frame q of
                 None \<Rightarrow> q
               | Some f \<Rightarrow>
                   q\<lparr>emitters := Some (ems @ [(fst en, Emitter (snd en))]),
                     frame := Some (f\<lparr>eventListeners :=
                                eventListeners f @ [(fst en, Emitter (snd en))]\<rparr>)\<rparr>)
         else q)"

definition updateEventEmitters :: "rootpanel \<Rightarrow> rootpanel" where
  "updateEventEmitters p = foldl updateEmitter p (listeners p)"

text \<open>
  \<open>on\<close>: finds or creates the listener array of the event, pushes the callback, and
  synchronises the dispatch closures. It returns the state it leaves and the error it
  raised, if any. Under an inherited name the lookup \<open>this.listeners[event]\<close> yields
  the inherited member, which is truthy and has no \<open>push\<close>: the call \<open>arr.push\<close>
  raises a TypeError before anything is changed. A push to an address outside the store
  is written out as no change.
\<close>

definition on :: "rootpanel \<Rightarrow> event_name \<Rightarrow> callback \<Rightarrow> rootpanel \<times> error option" where
  "on p ev cb =
     (if ev \<in> set objectPrototypeNames then (p, Some TypeError)
      else
        (let (q, r) = (case map_of (listeners p) ev of
                         Some r \<Rightarrow> (p, r)
                       | None \<Rightarrow>
                           (p\<lparr>arrays := arrays p @ [[]],
                              listeners := listeners p @ [(ev, length (arrays p))]\<rparr>,
                            length (arrays p)));
             q' = (if r < length (arrays q)
                   then q\<lparr>arrays := (arrays q)[r := arrays q ! r @ [cb]]\<rparr> else q)
         in (updateEventEmitters q', None)))"

text \<open>
  The listeners that \<open>listeners.forEach\<close> calls with a raw event: those of the array in
  order, up to and including the first whose call raises. Nothing catches the
  exception, so the loop ends there and the listeners after it are not called.
\<close>

fun forEachCalls :: "callback list \<Rightarrow> raw_event \<Rightarrow> callback list" where
  "forEachCalls [] e = []"
| "forEachCalls (cb # cbs) e = cb # (if cb_raises cb e then [] else forEachCalls cbs e)"

text \<open>
  A dispatch closure called with a raw event runs that loop over its array; every call
  of a listener is recorded in \<open>calls\<close>. An exception that leaves the closure is
  reported by the host, which goes on with the remaining handlers of the element.
  Listeners are taken not to call back into the panel.
\<close>

definition runEmitter :: "rootpanel \<Rightarrow> emitter \<Rightarrow> raw_event \<Rightarrow> rootpanel" where
  "runEmitter p em e =
     (case em of Emitter r \<Rightarrow>
        if r < length (arrays p)
        then p\<lparr>calls := calls p @ map (\<lambda>cb. (cb, e)) (forEachCalls (arrays p ! r) e)\<rparr>
        else p)"

text \<open>
  The host delivers an event of the given name to the frame: every handler attached
  under that name runs, in the order of attachment.
\<close>

definition dispatchEvent :: "rootpanel \<Rightarrow> event_name \<Rightarrow> raw_event \<Rightarrow> rootpanel" where
  "dispatchEvent p ev e =
     (case frame p of
        None \<Rightarrow> p
      | Some f \<Rightarrow>
          foldl (\<lambda>q h. runEmitter q (snd h) e) p
            (filter (\<lambda>h. fst h = ev) (eventListeners f)))"

subsection \<open>Repaint and reflow\<close>

definition createFrame :: "options \<Rightarrow> frame" where
  "createFrame opts =
     (let f = \<lparr>frame_className = ''graph panel'', parentNode = None,
               style_top = [], style_left = [], style_width = [], style_height = [],
               offsetTop = 0, offsetLeft = 0, offsetWidth = 0, offsetHeight = 0,
               clientWidth = 0, clientHeight = 0, eventListeners = []\<rparr>
      in if truthy_className (className opts)
         then addClassName f (asString (the (className opts))) else f)"

text \<open>
  The four style updates of \<open>repaint\<close>: each compares the string the element returns
  with the configured one, writes the configured one only where they differ, and then
  sets \<open>changed\<close>.
\<close>

definition updateStyles :: "options \<Rightarrow> frame \<Rightarrow> bool \<Rightarrow> frame \<times> bool" where
  "updateStyles opts f0 changed0 =
     (let top = asSize (opt_top opts) ''0'';
          (f1, changed1) = (if style_top f0 \<noteq> top
                            then (f0\<lparr>style_top := readBack top\<rparr>, True)
                            else (f0, changed0));
          left = asSize (opt_left opts) ''0'';
          (f2, changed2) = (if style_left f1 \<noteq> left
                            then (f1\<lparr>style_left := readBack left\<rparr>, True)
                            else (f1, changed1));
          width = asSize (opt_width opts) ''100%'';
          (f3, changed3) = (if style_width f2 \<noteq> width
                            then (f2\<lparr>style_width := readBack width\<rparr>, True)
                            else (f2, changed2));
          height = asSize (opt_height opts) ''100%'';
          (f4, changed4) = (if style_height f3 \<noteq> height
                            then (f3\<lparr>style_height := readBack height\<rparr>, True)
                            else (f3, changed3))
      in (f4, changed4))"

text \<open>
  \<open>repaint\<close> returns the state it leaves and either the error it raised or the value
  \<open>changed\<close>. When it raises, the frame it has just created stays in the panel: the
  assignment to \<open>this.frame\<close> comes before the test of the container.
\<close>

definition repaint :: "rootpanel \<Rightarrow> rootpanel \<times> (error + bool)" where
  "repaint p =
     (let (p1, f1, changed1) =
            (case frame p of
               None \<Rightarrow> (let f = createFrame (options p) in (p\<lparr>frame := Some f\<rparr>, f, True))
             | Some f \<Rightarrow> (p, f, False))
      in case (case parentNode f1 of
                 None \<Rightarrow>
                   (case container (options p1) of
                      None \<Rightarrow> Inl no_container_error
                    | Some c \<Rightarrow> Inr (f1\<lparr>parentNode := Some c\<rparr>, True))
               | Some _ \<Rightarrow> Inr (f1, changed1)) of
           Inl err \<Rightarrow> (p1, Inl err)
         | Inr (f2, changed2) \<Rightarrow>
             (let (f3, changed3) = updateStyles (options p1) f2 changed2
              in (updateEventEmitters (p1\<lparr>frame := Some f3\<rparr>), Inr changed3)))"

definition reflow :: "rootpanel \<Rightarrow> rootpanel \<times> bool" where
  "reflow p =
     (case frame p of
        Some f \<Rightarrow>
          (let (p1, r1) = (if Some (offsetTop f) \<noteq> this_top p
                           then (p\<lparr>this_top := Some (offsetTop f)\<rparr>, True) else (p, False));
               (p2, r2) = (if Some (offsetLeft f) \<noteq> this_left p1
                           then (p1\<lparr>this_left := Some (offsetLeft f)\<rparr>, True) else (p1, r1));
               (p3, r3) = (if Some (offsetWidth f) \<noteq> this_width p2
                           then (p2\<lparr>this_width := Some (offsetWidth f)\<rparr>, True) else (p2, r2));
               (p4, r4) = (if Some (offsetHeight f) \<noteq> this_height p3
                           then (p3\<lparr>this_height := Some (offsetHeight f)\<rparr>, True) else (p3, r3))
           in (p4, r4))
      | None \<Rightarrow> (p, True))"


subsection \<open>The host\<close>

text \<open>
  What the host does to the panel between calls of its methods: an interval timer fires
  (only a running one calls \<open>checkSize\<close>), the window signals a resize (every attached
  \<open>checkSize\<close> handler runs), an event reaches the frame (\<open>dispatchEvent\<close> above), or the
  layout gives the frame new offsets and client sizes.
\<close>

definition timerTick :: "rootpanel \<Rightarrow> timer \<Rightarrow> rootpanel" where
  "timerTick p t = (if t \<in> set (activeTimers p) then checkSize p else p)"

definition windowResize :: "rootpanel \<Rightarrow> rootpanel" where
  "windowResize p = (checkSize ^^ resizeListeners p) p"

record geometry =
  g_top :: int
  g_left :: int
  g_width :: int
  g_height :: int
  g_clientWidth :: int
  g_clientHeight :: int

definition layout :: "rootpanel \<Rightarrow> geometry \<Rightarrow> rootpanel" where
  "layout p g =
     (case frame p of
        None \<Rightarrow> p
      | Some f \<Rightarrow>
          p\<lparr>frame := Some (f\<lparr>offsetTop := g_top g, offsetLeft := g_left g,
                               offsetWidth := g_width g, offsetHeight := g_height g,
                               clientWidth := g_clientWidth g,
                               clientHeight := g_clientHeight g\<rparr>)\<rparr>)"

text \<open>
  One step of a panel's life is a call of one of its methods or an action of the host;
  a panel instance is a state reached from the constructor by such steps.
\<close>

inductive step :: "rootpanel \<Rightarrow> rootpanel \<Rightarrow> bool" where
  step_setOptions: "step p (setOptions p opts)"
| step_repaint: "step p (fst (repaint p))"
| step_reflow: "step p (fst (reflow p))"
| step_on: "step p (fst (on p ev cb))"
| step_timerTick: "step p (timerTick p t)"
| step_windowResize: "step p (windowResize p)"
| step_dispatchEvent: "step p (dispatchEvent p ev e)"
| step_layout: "step p (layout p g)"

inductive reachable :: "rootpanel \<Rightarrow> bool" where
  reachable_new: "reachable (RootPanel uuid opts)"
| reachable_step: "reachable p \<Longrightarrow> step p q \<Longrightarrow> reachable q"

text \<open>The listeners registered for an event, in the order of the array.\<close>

definition listenersOf :: "rootpanel \<Rightarrow> event_name \<Rightarrow> callback list" where
  "listenersOf p ev =
     (case map_of (listeners p) ev of
        None \<Rightarrow> []
      | Some r \<Rightarrow> if r < length (arrays p) then arrays p ! r else [])"

text \<open>The dispatch closures attached to the frame for an event.\<close>

definition attached :: "rootpanel \<Rightarrow> event_name \<Rightarrow> emitter list" where
  "attached p ev =
     (case frame p of
        None \<Rightarrow> []
      | Some f \<Rightarrow> map snd (filter (\<lambda>h. fst h = ev) (eventListeners f)))"

text \<open>The table of dispatch closures, empty while \<open>this.emitters\<close> is undefined.\<close>

definition emittersOf :: "rootpanel \<Rightarrow> (event_name \<times> emitter) list" where
  "emittersOf p = (case emitters p of None \<Rightarrow> [] | Some es \<Rightarrow> es)"

text \<open>
  A listener is invoked by the delivery of an event when the calls that the delivery
  adds to the log contain the listener with that event.
\<close>

definition invoked :: "rootpanel \<Rightarrow> event_name \<Rightarrow> raw_event \<Rightarrow> callback \<Rightarrow> bool" where
  "invoked p ev e cb \<longleftrightarrow>
     (cb, e) \<in> set (drop (length (calls p)) (calls (dispatchEvent p ev e)))"

text \<open>Two frame values are the same element up to the handlers attached to it.\<close>

definition sameElement :: "frame \<Rightarrow> frame \<Rightarrow> bool" where
  "sameElement f g \<longleftrightarrow> g = f\<lparr>eventListeners := eventListeners g\<rparr>"

text \<open>
  The steps that leave the auto-resize option alone: every step except a call of
  \<open>setOptions\<close> that supplies the key \<open>autoResize\<close>.
\<close>

inductive quiet :: "rootpanel \<Rightarrow> rootpanel \<Rightarrow> bool" where
  quiet_setOptions: "autoResize opts = None \<Longrightarrow> quiet p (setOptions p opts)"
| quiet_repaint: "quiet p (fst (repaint p))"
| quiet_reflow: "quiet p (fst (reflow p))"
| quiet_on: "quiet p (fst (on p ev cb))"
| quiet_timerTick: "quiet p (timerTick p t)"
| quiet_windowResize: "quiet p (windowResize p)"
| quiet_dispatchEvent: "quiet p (dispatchEvent p ev e)"
| quiet_layout: "quiet p (layout p g)"

subsection \<open>Invariants of a panel instance\<close>

text \<open>The only interval timer that runs is the one whose handle the panel holds.\<close>

definition inv_timer :: "rootpanel \<Rightarrow> bool" where
  "inv_timer p \<longleftrightarrow>
     activeTimers p = (case watchTimer p of None \<Rightarrow> [] | Some t \<Rightarrow> [t])"

text \<open>
  Every event name has one entry in \<open>listeners\<close>, none of the names is an inherited
  one, no two events share an array, and every array is in the store and holds at least
  one callback.
\<close>

definition inv_listeners :: "rootpanel \<Rightarrow> bool" where
  "inv_listeners p \<longleftrightarrow>
     distinct (map fst (listeners p)) \<and> distinct (map snd (listeners p)) \<and>
     (\<forall>en \<in> set (listeners p).
        fst en \<notin> set objectPrototypeNames \<and> snd en < length (arrays p) \<and>
        arrays p ! snd en \<noteq> [])"

text \<open>
  The table of dispatch closures has one entry per event name, each entry is the
  closure over the listener array of its event, and the handlers attached to the frame
  are exactly the entries of the table.
\<close>

definition inv_emitters :: "rootpanel \<Rightarrow> bool" where
  "inv_emitters p \<longleftrightarrow>
     distinct (map fst (emittersOf p)) \<and>
     (\<forall>h \<in> set (emittersOf p). \<exists>r. snd h = Emitter r \<and> (fst h, r) \<in> set (listeners p)) \<and>
     (case frame p of None \<Rightarrow> emittersOf p = [] | Some f \<Rightarrow> eventListeners f = emittersOf p)"

text \<open>
  Once the frame is in a container, every event name with listeners has its dispatch
  closure.
\<close>

definition inv_cover :: "rootpanel \<Rightarrow> bool" where
  "inv_cover p \<longleftrightarrow>
     (\<forall>f. frame p = Some f \<and> parentNode f \<noteq> None \<longrightarrow>
        fst ` set (listeners p) \<subseteq> fst ` set (emittersOf p) \<and>
        (listeners p \<noteq> [] \<longrightarrow> emitters p \<noteq> None))"

definition invariant :: "rootpanel \<Rightarrow> bool" where
  "invariant p \<longleftrightarrow> inv_timer p \<and> inv_listeners p \<and> inv_emitters p \<and> inv_cover p"

subsection \<open>Sample panels\<close>

definition sample_options :: options where
  "sample_options = no_options\<lparr>container := Some 7\<rparr>"

definition sample_panel :: rootpanel where
  "sample_panel = RootPanel ''root'' sample_options"

definition sample_geometry :: geometry where
  "sample_geometry = \<lparr>g_top = 0, g_left = 0, g_width = 640, g_height = 480,
     g_clientWidth = 640, g_clientHeight = 480\<rparr>"

text \<open>
  The state in which \<open>repaint\<close> tests the container: the frame exists, created from the
  options if it did not.
\<close>

definition prepared :: "rootpanel \<Rightarrow> rootpanel" where
  "prepared p =
     (case frame p of None \<Rightarrow> p\<lparr>frame := Some (createFrame (options p))\<rparr> | Some f \<Rightarrow> p)"

text \<open>
  What a style field holds after one of the four updates: the configured string in the
  form the host reads it back where it differed from the current one, and the current
  one otherwise.
\<close>

definition written :: "string \<Rightarrow> string \<Rightarrow> string" where
  "written cur v = (if cur \<noteq> v then readBack v else cur)"

text \<open>The frame is not appended to a container: it does not exist or has no parent.\<close>

definition notAppended :: "rootpanel \<Rightarrow> bool" where
  "notAppended p \<longleftrightarrow> (case frame p of None \<Rightarrow> True | Some f \<Rightarrow> parentNode f = None)"

text \<open>The watch is off: the option is not truthy and no interval timer runs.\<close>

definition watchOff :: "rootpanel \<Rightarrow> bool" where
  "watchOff p \<longleftrightarrow>
     \<not> truthy_autoResize (autoResize (options p)) \<and> watchTimer p = None \<and> activeTimers p = []"


definition sample_watching :: rootpanel where
  "sample_watching =
     layout (fst (repaint (RootPanel ''root'' (sample_options\<lparr>autoResize := Some (Plain True)\<rparr>))))
       sample_geometry"

definition autoResize_off :: options where
  "autoResize_off = no_options\<lparr>autoResize := Some (Plain False)\<rparr>"

text \<open>
  The state of \<open>on\<close> after the push and before the synchronisation of the dispatch
  closures.
\<close>

definition registered :: "rootpanel \<Rightarrow> event_name \<Rightarrow> callback \<Rightarrow> rootpanel" where
  "registered p ev cb =
     (case map_of (listeners p) ev of
        Some r \<Rightarrow>
          if r < length (arrays p) then p\<lparr>arrays := (arrays p)[r := arrays p ! r @ [cb]]\<rparr> else p
      | None \<Rightarrow>
          p\<lparr>listeners := listeners p @ [(ev, length (arrays p))],
            arrays := arrays p @ [[cb]]\<rparr>)"

text \<open>
  An event is wired to a listener when a dispatch closure is attached to the frame for
  the event and the event's array holds the listener, after the listeners \<open>pre\<close>.
\<close>

definition wired :: "rootpanel \<Rightarrow> event_name \<Rightarrow> callback list \<Rightarrow> callback \<Rightarrow> bool" where
  "wired p ev pre cb \<longleftrightarrow>
     attached p ev \<noteq> [] \<and> (\<exists>post. listenersOf p ev = pre @ cb # post)"

text \<open>Two listeners that return on every event, and one that raises on every event.\<close>

definition never :: "raw_event \<Rightarrow> bool" where
  "never e = False"

definition always :: "raw_event \<Rightarrow> bool" where
  "always e = True"

definition listener1 :: callback where
  "listener1 = Callback 1 never"

definition listener2 :: callback where
  "listener2 = Callback 2 never"

definition faulty :: callback where
  "faulty = Callback 3 always"

definition sample_listening :: rootpanel where
  "sample_listening = fst (on (fst (repaint sample_panel)) ''click'' listener1)"

section \<open>Reflow\<close>

lemma reflow_no_frame: "frame p = None \<Longrightarrow> reflow p = (p, True)"
  by (simp add: reflow_def)

lemma reflow_frame_fields:
  assumes "frame p = Some f"
  shows "this_top (fst (reflow p)) = Some (offsetTop f)"
    and "this_left (fst (reflow p)) = Some (offsetLeft f)"
    and "this_width (fst (reflow p)) = Some (offsetWidth f)"
    and "this_height (fst (reflow p)) = Some (offsetHeight f)"
  using assms by (simp_all add: reflow_def Let_def split: prod.splits if_splits)

lemma reflow_frame_result:
  assumes "frame p = Some f"
  shows "snd (reflow p) \<longleftrightarrow>
           (this_top p \<noteq> Some (offsetTop f) \<or> this_left p \<noteq> Some (offsetLeft f) \<or>
            this_width p \<noteq> Some (offsetWidth f) \<or> this_height p \<noteq> Some (offsetHeight f))"
  using assms by (auto simp add: reflow_def Let_def split: prod.splits if_splits)

lemma reflow_frame_unchanged: "frame (fst (reflow p)) = frame p"
  by (simp add: reflow_def Let_def split: option.splits prod.splits if_splits)

lemma reflow_only_geometry:
  "fst (reflow p) = p\<lparr>this_top := this_top (fst (reflow p)),
                       this_left := this_left (fst (reflow p)),
                       this_width := this_width (fst (reflow p)),
                       this_height := this_height (fst (reflow p))\<rparr>"
  by (simp add: reflow_def Let_def split: option.splits prod.splits if_splits)

section \<open>Synchronisation of the dispatch closures: what it leaves alone\<close>

lemma updateEmitter_other [simp]:
  "options (updateEmitter p en) = options p"
  "listeners (updateEmitter p en) = listeners p"
  "arrays (updateEmitter p en) = arrays p"
  "watchTimer (updateEmitter p en) = watchTimer p"
  "this_top (updateEmitter p en) = this_top p"
  "this_left (updateEmitter p en) = this_left p"
  "this_width (updateEmitter p en) = this_width p"
  "this_height (updateEmitter p en) = this_height p"
  "activeTimers (updateEmitter p en) = activeTimers p"
  "nextTimer (updateEmitter p en) = nextTimer p"
  "resizeListeners (updateEmitter p en) = resizeListeners p"
  "reflowRequests (updateEmitter p en) = reflowRequests p"
  "calls (updateEmitter p en) = calls p"
  "panel_id (updateEmitter p en) = panel_id p"
  by (simp_all add: updateEmitter_def Let_def split: option.splits)

lemma foldl_updateEmitter_other [simp]:
  "options (foldl updateEmitter p ls) = options p"
  "listeners (foldl updateEmitter p ls) = listeners p"
  "arrays (foldl updateEmitter p ls) = arrays p"
  "watchTimer (foldl updateEmitter p ls) = watchTimer p"
  "this_top (foldl updateEmitter p ls) = this_top p"
  "this_left (foldl updateEmitter p ls) = this_left p"
  "this_width (foldl updateEmitter p ls) = this_width p"
  "this_height (foldl updateEmitter p ls) = this_height p"
  "activeTimers (foldl updateEmitter p ls) = activeTimers p"
  "nextTimer (foldl updateEmitter p ls) = nextTimer p"
  "resizeListeners (foldl updateEmitter p ls) = resizeListeners p"
  "reflowRequests (foldl updateEmitter p ls) = reflowRequests p"
  "calls (foldl updateEmitter p ls) = calls p"
  "panel_id (foldl updateEmitter p ls) = panel_id p"
  by (induction ls arbitrary: p; simp)+

lemma sameElement_refl: "sameElement f f"
  by (simp add: sameElement_def)

lemma sameElement_trans: "sameElement f g \<Longrightarrow> sameElement g h \<Longrightarrow> sameElement f h"
  unfolding sameElement_def
  by (metis frame.update_convs(13) frame.surjective)

lemma updateEmitter_frame:
  "rel_option sameElement (frame p) (frame (updateEmitter p en))"
  by (cases "frame p") (auto simp add: updateEmitter_def Let_def sameElement_def split: option.splits)

lemma foldl_updateEmitter_frame:
  "rel_option sameElement (frame p) (frame (foldl updateEmitter p ls))"
proof (induction ls arbitrary: p)
  case Nil
  show ?case by (cases "frame p") (simp_all add: sameElement_refl)
next
  case (Cons en ls)
  have a: "rel_option sameElement (frame p) (frame (updateEmitter p en))"
    by (rule updateEmitter_frame)
  have b: "rel_option sameElement (frame (updateEmitter p en))
             (frame (foldl updateEmitter (updateEmitter p en) ls))"
    by (rule Cons.IH)
  from a b show ?case
    by (cases "frame p"; cases "frame (updateEmitter p en)";
        cases "frame (foldl updateEmitter (updateEmitter p en) ls)")
       (auto intro: sameElement_trans)
qed

lemma updateEventEmitters_frame:
  "frame p = Some f \<Longrightarrow> \<exists>g. frame (updateEventEmitters p) = Some g \<and> sameElement f g"
  using foldl_updateEmitter_frame [of p "listeners p"]
  by (cases "frame (updateEventEmitters p)") (simp_all add: updateEventEmitters_def)

lemma updateStyles_frame:
  "fst (updateStyles opts f ch) =
     f\<lparr>style_top := written (style_top f) (asSize (opt_top opts) ''0''),
       style_left := written (style_left f) (asSize (opt_left opts) ''0''),
       style_width := written (style_width f) (asSize (opt_width opts) ''100%''),
       style_height := written (style_height f) (asSize (opt_height opts) ''100%'')\<rparr>"
  by (simp add: updateStyles_def written_def Let_def split: prod.splits if_splits)

lemma updateStyles_changed:
  "snd (updateStyles opts f ch) \<longleftrightarrow>
     ch \<or> style_top f \<noteq> asSize (opt_top opts) ''0'' \<or>
     style_left f \<noteq> asSize (opt_left opts) ''0'' \<or>
     style_width f \<noteq> asSize (opt_width opts) ''100%'' \<or>
     style_height f \<noteq> asSize (opt_height opts) ''100%''"
  by (auto simp add: updateStyles_def Let_def split: prod.splits if_splits)

section \<open>Repaint\<close>

lemma parentNode_createFrame [simp]: "parentNode (createFrame opts) = None"
  by (simp add: createFrame_def Let_def addClassName_def)

lemma repaint_raises:
  "container (options p) = None \<Longrightarrow> notAppended p \<Longrightarrow>
     repaint p = (prepared p, Inl no_container_error)"
  by (simp add: repaint_def prepared_def notAppended_def Let_def split: option.splits)

lemma repaint_returns:
  "container (options p) \<noteq> None \<or> \<not> notAppended p \<Longrightarrow> \<exists>b. snd (repaint p) = Inr b"
  by (auto simp add: repaint_def notAppended_def Let_def split: option.splits prod.splits)

text \<open>
  C1. With no container configured and the frame not yet appended to a container,
  \<open>repaint\<close> raises the documented error; it raises no other error and raises in no
  other situation; and when it raises, the frame is still not appended (the state is the
  one in which the container was tested).
\<close>

theorem repaint_error:
  "(snd (repaint p) = Inl no_container_error \<longleftrightarrow> container (options p) = None \<and> notAppended p) \<and>
   (\<forall>err. snd (repaint p) = Inl err \<longrightarrow>
      err = no_container_error \<and> notAppended (fst (repaint p)) \<and> fst (repaint p) = prepared p)"
proof (cases "container (options p) = None \<and> notAppended p")
  case True
  then have "repaint p = (prepared p, Inl no_container_error)"
    by (simp add: repaint_raises)
  moreover have "notAppended (prepared p)"
    using True by (simp add: prepared_def notAppended_def split: option.splits)
  ultimately show ?thesis using True by simp
next
  case False
  then obtain b where "snd (repaint p) = Inr b"
    using repaint_returns [of p] by blast
  then show ?thesis using False by auto
qed

theorem repaint_error_witness:
  "snd (repaint (RootPanel ''root'' no_options)) = Inl no_container_error \<and>
   notAppended (fst (repaint (RootPanel ''root'' no_options))) \<and>
   (\<exists>b. snd (repaint sample_panel) = Inr b)"
proof -
  have a: "container (options (RootPanel ''root'' no_options)) = None \<and>
           notAppended (RootPanel ''root'' no_options)"
    by (simp add: RootPanel_def setOptions_def Component_setOptions_def no_options_def
        override_def notAppended_def)
  have b: "container (options sample_panel) \<noteq> None"
    by (simp add: sample_panel_def sample_options_def RootPanel_def setOptions_def
        Component_setOptions_def no_options_def override_def)
  have c: "snd (repaint sample_panel) \<noteq> Inl no_container_error"
    using repaint_error [of sample_panel] b by simp
  have d: "\<exists>b. snd (repaint sample_panel) = Inr b"
    using repaint_returns [of sample_panel] b by simp
  from a d repaint_error [of "RootPanel ''root'' no_options"] show ?thesis
    by auto
qed

lemma sample_painted_frame:
  "frame (layout (fst (repaint sample_panel)) sample_geometry) =
     Some \<lparr>frame_className = ''graph panel'', parentNode = Some 7,
           style_top = ''0px'', style_left = ''0px'', style_width = ''100%'',
           style_height = ''100%'', offsetTop = 0, offsetLeft = 0,
           offsetWidth = 640, offsetHeight = 480, clientWidth = 640,
           clientHeight = 480, eventListeners = []\<rparr>"
  by (simp add: sample_panel_def sample_options_def sample_geometry_def RootPanel_def
      setOptions_def Component_setOptions_def no_options_def override_def repaint_def
      createFrame_def truthy_className_def updateStyles_def asSize_def readBack_def Let_def
      updateEventEmitters_def layout_def)

lemma sample_painted_cache:
  "this_width (layout (fst (repaint sample_panel)) sample_geometry) = None"
  by (simp add: sample_panel_def sample_options_def sample_geometry_def RootPanel_def
      setOptions_def Component_setOptions_def no_options_def override_def repaint_def
      createFrame_def truthy_className_def updateStyles_def asSize_def readBack_def Let_def
      updateEventEmitters_def layout_def)

text \<open>
  C6. Without a frame, \<open>reflow\<close> returns true and leaves the state, hence the cached
  geometry, as it is. With a frame, it copies the frame's offset top, left, width and
  height into the cached fields, changes nothing else, and returns true exactly when one
  of the four cached values changed; a second \<open>reflow\<close> over the same dimensions
  returns false.
\<close>

theorem reflow_geometry:
  "(frame p = None \<longrightarrow> reflow p = (p, True)) \<and>
   (\<forall>f. frame p = Some f \<longrightarrow>
      fst (reflow p) = p\<lparr>this_top := Some (offsetTop f), this_left := Some (offsetLeft f),
                         this_width := Some (offsetWidth f),
                         this_height := Some (offsetHeight f)\<rparr> \<and>
      (snd (reflow p) \<longleftrightarrow>
         this_top (fst (reflow p)) \<noteq> this_top p \<or> this_left (fst (reflow p)) \<noteq> this_left p \<or>
         this_width (fst (reflow p)) \<noteq> this_width p \<or>
         this_height (fst (reflow p)) \<noteq> this_height p) \<and>
      \<not> snd (reflow (fst (reflow p))))"
proof (intro conjI allI impI)
  assume "frame p = None"
  then show "reflow p = (p, True)" by (rule reflow_no_frame)
next
  fix f assume f: "frame p = Some f"
  have fields: "this_top (fst (reflow p)) = Some (offsetTop f)"
    "this_left (fst (reflow p)) = Some (offsetLeft f)"
    "this_width (fst (reflow p)) = Some (offsetWidth f)"
    "this_height (fst (reflow p)) = Some (offsetHeight f)"
    using reflow_frame_fields [OF f] by simp_all
  show "fst (reflow p) = p\<lparr>this_top := Some (offsetTop f), this_left := Some (offsetLeft f),
                         this_width := Some (offsetWidth f),
                         this_height := Some (offsetHeight f)\<rparr>"
    using reflow_only_geometry [of p] by (simp only: fields)
  show "snd (reflow p) \<longleftrightarrow>
         this_top (fst (reflow p)) \<noteq> this_top p \<or> this_left (fst (reflow p)) \<noteq> this_left p \<or>
         this_width (fst (reflow p)) \<noteq> this_width p \<or>
         this_height (fst (reflow p)) \<noteq> this_height p"
    unfolding fields reflow_frame_result [OF f] by auto
  have f': "frame (fst (reflow p)) = Some f"
    using f by (simp add: reflow_frame_unchanged)
  show "\<not> snd (reflow (fst (reflow p)))"
    unfolding reflow_frame_result [OF f'] by (simp add: fields)
qed

theorem reflow_geometry_witness:
  "reflow (RootPanel ''root'' no_options) = (RootPanel ''root'' no_options, True) \<and>
   snd (reflow (layout (fst (repaint sample_panel)) sample_geometry)) \<and>
   this_width (fst (reflow (layout (fst (repaint sample_panel)) sample_geometry))) = Some 640 \<and>
   \<not> snd (reflow (fst (reflow (layout (fst (repaint sample_panel)) sample_geometry))))"
proof -
  let ?P = "layout (fst (repaint sample_panel)) sample_geometry"
  have a: "frame (RootPanel ''root'' no_options) = None"
    by (simp add: RootPanel_def setOptions_def Component_setOptions_def no_options_def)
  from reflow_geometry [of "RootPanel ''root'' no_options"] a
  have 1: "reflow (RootPanel ''root'' no_options) = (RootPanel ''root'' no_options, True)"
    by blast
  let ?F = "\<lparr>frame_className = ''graph panel'', parentNode = Some 7,
           style_top = ''0px'', style_left = ''0px'', style_width = ''100%'',
           style_height = ''100%'', offsetTop = 0, offsetLeft = 0,
           offsetWidth = 640, offsetHeight = 480, clientWidth = 640,
           clientHeight = 480, eventListeners = []\<rparr>"
  have all: "fst (reflow ?P) = ?P\<lparr>this_top := Some (offsetTop ?F),
                 this_left := Some (offsetLeft ?F), this_width := Some (offsetWidth ?F),
                 this_height := Some (offsetHeight ?F)\<rparr> \<and>
      (snd (reflow ?P) \<longleftrightarrow>
         this_top (fst (reflow ?P)) \<noteq> this_top ?P \<or> this_left (fst (reflow ?P)) \<noteq> this_left ?P \<or>
         this_width (fst (reflow ?P)) \<noteq> this_width ?P \<or>
         this_height (fst (reflow ?P)) \<noteq> this_height ?P) \<and>
      \<not> snd (reflow (fst (reflow ?P)))"
    using reflow_geometry [of ?P] sample_painted_frame by blast
  note 2 = all [THEN conjunct1]
  note 3 = all [THEN conjunct2, THEN conjunct1]
  note 4 = all [THEN conjunct2, THEN conjunct2]
  have 5: "this_width (fst (reflow ?P)) = Some 640"
    by (simp add: 2)
  have 6: "snd (reflow ?P)"
    using 3 5 sample_painted_cache by simp
  from 1 4 5 6 show ?thesis by blast
qed

lemma repaint_appended:
  assumes f: "frame p = Some f" and c: "parentNode f = Some c"
  shows "repaint p =
           (updateEventEmitters (p\<lparr>frame := Some (fst (updateStyles (options p) f False))\<rparr>),
            Inr (snd (updateStyles (options p) f False)))"
  using assms by (simp add: repaint_def Let_def split_beta)

lemma updateStyles_True: "snd (updateStyles opts f True)"
  by (simp add: updateStyles_changed)

lemma repaint_appends:
  assumes "notAppended p" and c: "container (options p) = Some c"
  shows "repaint p =
           (updateEventEmitters
              ((prepared p)\<lparr>frame := Some (fst (updateStyles (options p)
                 ((the (frame (prepared p)))\<lparr>parentNode := Some c\<rparr>) True))\<rparr>),
            Inr True)"
  using assms
  by (auto simp add: repaint_def prepared_def notAppended_def Let_def split_beta
      updateStyles_True split: option.splits)

lemma sameElement_fields:
  assumes "sameElement f g"
  shows "parentNode g = parentNode f" "style_top g = style_top f" "style_left g = style_left f"
    "style_width g = style_width f" "style_height g = style_height f"
  using assms unfolding sameElement_def
  by (metis frame.select_convs frame.surjective frame.update_convs(13))+

text \<open>
  The frame that a \<open>repaint\<close> which returns leaves: it is in a container, and each style
  field is what the update of the field it had before leaves.
\<close>

lemma repaint_styles:
  assumes "repaint p = (q, Inr b)"
  shows "\<exists>f g. frame (prepared p) = Some f \<and> frame q = Some g \<and> parentNode g \<noteq> None \<and>
           style_top g = written (style_top f) (asSize (opt_top (options p)) ''0'') \<and>
           style_left g = written (style_left f) (asSize (opt_left (options p)) ''0'') \<and>
           style_width g = written (style_width f) (asSize (opt_width (options p)) ''100%'') \<and>
           style_height g = written (style_height f) (asSize (opt_height (options p)) ''100%'') \<and>
           options q = options p"
proof (cases "notAppended p")
  case True
  with assms obtain c where c: "container (options p) = Some c"
    using repaint_raises [of p] by (cases "container (options p)") auto
  obtain f where f: "frame (prepared p) = Some f"
    by (cases "frame p") (simp_all add: prepared_def)
  let ?f = "fst (updateStyles (options p) (f\<lparr>parentNode := Some c\<rparr>) True)"
  have q: "q = updateEventEmitters ((prepared p)\<lparr>frame := Some ?f\<rparr>)"
    using repaint_appends [OF True c] assms f by simp
  obtain g where g: "frame q = Some g" "sameElement ?f g"
    using updateEventEmitters_frame [of "(prepared p)\<lparr>frame := Some ?f\<rparr>" ?f] q by auto
  have "options q = options p"
    by (simp add: q updateEventEmitters_def prepared_def split: option.splits)
  then show ?thesis
    using f g sameElement_fields [OF g(2)] by (simp add: updateStyles_frame)
next
  case False
  then obtain f c where f: "frame p = Some f" "parentNode f = Some c"
    by (auto simp add: notAppended_def split: option.splits)
  let ?f = "fst (updateStyles (options p) f False)"
  have q: "q = updateEventEmitters (p\<lparr>frame := Some ?f\<rparr>)"
    using repaint_appended [OF f] assms by simp
  obtain g where g: "frame q = Some g" "sameElement ?f g"
    using updateEventEmitters_frame [of "p\<lparr>frame := Some ?f\<rparr>" ?f] q by auto
  have "options q = options p"
    by (simp add: q updateEventEmitters_def)
  moreover have "frame (prepared p) = Some f"
    using f(1) by (simp add: prepared_def)
  ultimately show ?thesis
    using g sameElement_fields [OF g(2)] f by (simp add: updateStyles_frame)
qed

text \<open>
  Where the host reads each configured style string back as it was written, and a
  container is configured, a second \<open>repaint\<close> returns false.
\<close>

lemma written_canonical: "readBack v = v \<Longrightarrow> written cur v = v"
  by (simp add: written_def)

lemma repaint_idempotent_canonical:
  assumes "container (options p) = Some c"
    and "readBack (asSize (opt_top (options p)) ''0'') = asSize (opt_top (options p)) ''0''"
    and "readBack (asSize (opt_left (options p)) ''0'') = asSize (opt_left (options p)) ''0''"
    and "readBack (asSize (opt_width (options p)) ''100%'') =
           asSize (opt_width (options p)) ''100%''"
    and "readBack (asSize (opt_height (options p)) ''100%'') =
           asSize (opt_height (options p)) ''100%''"
  shows "(\<exists>b. snd (repaint p) = Inr b) \<and> snd (repaint (fst (repaint p))) = Inr False"
proof -
  obtain b where b: "snd (repaint p) = Inr b"
    using repaint_returns [of p] assms(1) by auto
  then have r: "repaint p = (fst (repaint p), Inr b)"
    by (metis prod.collapse)
  from repaint_styles [OF r] obtain g d where g: "frame (fst (repaint p)) = Some g"
    "parentNode g = Some d"
    "style_top g = asSize (opt_top (options p)) ''0''"
    "style_left g = asSize (opt_left (options p)) ''0''"
    "style_width g = asSize (opt_width (options p)) ''100%''"
    "style_height g = asSize (opt_height (options p)) ''100%''"
    "options (fst (repaint p)) = options p"
    using assms(2-5) by (auto simp add: written_canonical)
  have "snd (repaint (fst (repaint p))) = Inr False"
    using g by (simp add: repaint_appended [OF g(1) g(2)] updateStyles_changed)
  with b show ?thesis by blast
qed

lemma sample_panel_repaint:
  "repaint sample_panel =
    (\<lparr>panel_id = ''root'',
      options = \<lparr>container = Some 7, opt_id = None, className = None, opt_left = None,
         opt_top = None, opt_width = None, opt_height = None,
         autoResize = Some (Plain True)\<rparr>,
      listeners = [], arrays = [], emitters = None,
      frame = Some \<lparr>frame_className = ''graph panel'', parentNode = Some 7,
           style_top = ''0px'', style_left = ''0px'', style_width = ''100%'',
           style_height = ''100%'', offsetTop = 0, offsetLeft = 0,
           offsetWidth = 0, offsetHeight = 0, clientWidth = 0,
           clientHeight = 0, eventListeners = []\<rparr>,
      watchTimer = None, this_top = None, this_left = None,
      this_width = None, this_height = None, activeTimers = [],
      nextTimer = 1, resizeListeners = 0, reflowRequests = 0, calls = []\<rparr>,
     Inr True)"
  by (simp add: sample_panel_def sample_options_def RootPanel_def
      setOptions_def Component_setOptions_def no_options_def override_def repaint_def
      createFrame_def truthy_className_def updateStyles_def asSize_def readBack_def Let_def
      updateEventEmitters_def)

lemma sample_painted_eval:
  "fst (repaint sample_panel) =
    \<lparr>panel_id = ''root'',
      options = \<lparr>container = Some 7, opt_id = None, className = None, opt_left = None,
         opt_top = None, opt_width = None, opt_height = None,
         autoResize = Some (Plain True)\<rparr>,
      listeners = [], arrays = [], emitters = None,
      frame = Some \<lparr>frame_className = ''graph panel'', parentNode = Some 7,
           style_top = ''0px'', style_left = ''0px'', style_width = ''100%'',
           style_height = ''100%'', offsetTop = 0, offsetLeft = 0,
           offsetWidth = 0, offsetHeight = 0, clientWidth = 0,
           clientHeight = 0, eventListeners = []\<rparr>,
      watchTimer = None, this_top = None, this_left = None,
      this_width = None, this_height = None, activeTimers = [],
      nextTimer = 1, resizeListeners = 0, reflowRequests = 0, calls = []\<rparr>"
  by (simp add: sample_panel_repaint)

lemma sample_painted_repaint:
  "repaint (fst (repaint sample_panel)) = (fst (repaint sample_panel), Inr True)"
  by (subst (1 2) sample_painted_eval)
     (simp add: sample_painted_eval repaint_def updateStyles_def asSize_def readBack_def
      Let_def updateEventEmitters_def)

text \<open>
  C4. A panel with a container and the default configuration: the first \<open>repaint\<close>
  writes the default \<open>0\<close> to the top and left of the frame, which the frame reads back
  as \<open>0px\<close>; the second \<open>repaint\<close>, with nothing changed in between, finds
  \<open>0px\<close> different from \<open>0\<close> and returns true, and so does every one after it.
\<close>

theorem repaint_default_not_idempotent:
  "container (options sample_panel) = Some 7 \<and>
   snd (repaint sample_panel) = Inr True \<and>
   snd (repaint (fst (repaint sample_panel))) = Inr True \<and>
   snd (repaint (fst (repaint (fst (repaint sample_panel))))) = Inr True"
proof -
  have c: "container (options sample_panel) = Some 7"
    by (simp add: sample_panel_def sample_options_def RootPanel_def setOptions_def
        Component_setOptions_def no_options_def override_def)
  have 1: "snd (repaint sample_panel) = Inr True"
    by (simp add: sample_panel_repaint)
  have 2: "snd (repaint (fst (repaint sample_panel))) = Inr True"
    by (simp add: sample_painted_repaint)
  have 3: "snd (repaint (fst (repaint (fst (repaint sample_panel))))) = Inr True"
    by (simp add: sample_painted_repaint)
  from c 1 2 3 show ?thesis by blast
qed


section \<open>The resize watch\<close>

text \<open>
  C2. A panel constructed without the key \<open>autoResize\<close> has the option enabled (the
  constructor's default is true) and yet holds no timer handle: \<open>setOptions\<close> starts
  the watch only when the key is among the supplied options. The panel evaluated here is
  \<open>new RootPanel({})\<close>.
\<close>

theorem default_options_no_watch:
  "autoResize (options (RootPanel ''root'' no_options)) = Some (Plain True) \<and>
   asBoolean (autoResize (options (RootPanel ''root'' no_options))) \<and>
   watchTimer (RootPanel ''root'' no_options) = None \<and>
   activeTimers (RootPanel ''root'' no_options) = [] \<and>
   resizeListeners (RootPanel ''root'' no_options) = 0"
  by (simp add: RootPanel_def setOptions_def Component_setOptions_def no_options_def
      override_def asBoolean_def)

section \<open>What each operation leaves alone\<close>

lemma updateEventEmitters_other [simp]:
  "options (updateEventEmitters p) = options p"
  "listeners (updateEventEmitters p) = listeners p"
  "arrays (updateEventEmitters p) = arrays p"
  "watchTimer (updateEventEmitters p) = watchTimer p"
  "this_top (updateEventEmitters p) = this_top p"
  "this_left (updateEventEmitters p) = this_left p"
  "this_width (updateEventEmitters p) = this_width p"
  "this_height (updateEventEmitters p) = this_height p"
  "activeTimers (updateEventEmitters p) = activeTimers p"
  "nextTimer (updateEventEmitters p) = nextTimer p"
  "resizeListeners (updateEventEmitters p) = resizeListeners p"
  "reflowRequests (updateEventEmitters p) = reflowRequests p"
  "calls (updateEventEmitters p) = calls p"
  "panel_id (updateEventEmitters p) = panel_id p"
  by (simp_all add: updateEventEmitters_def)

lemma prepared_other [simp]:
  "options (prepared p) = options p"
  "listeners (prepared p) = listeners p"
  "arrays (prepared p) = arrays p"
  "emitters (prepared p) = emitters p"
  "watchTimer (prepared p) = watchTimer p"
  "this_top (prepared p) = this_top p"
  "this_left (prepared p) = this_left p"
  "this_width (prepared p) = this_width p"
  "this_height (prepared p) = this_height p"
  "activeTimers (prepared p) = activeTimers p"
  "nextTimer (prepared p) = nextTimer p"
  "resizeListeners (prepared p) = resizeListeners p"
  "reflowRequests (prepared p) = reflowRequests p"
  "calls (prepared p) = calls p"
  "panel_id (prepared p) = panel_id p"
  by (simp_all add: prepared_def split: option.splits)

text \<open>The three outcomes of \<open>repaint\<close>, by the state of the frame and the container.\<close>

lemma repaint_cases:
  obtains (raises) "container (options p) = None" "notAppended p"
      "repaint p = (prepared p, Inl no_container_error)"
    | (appends) c where "container (options p) = Some c" "notAppended p"
      "repaint p =
           (updateEventEmitters
              ((prepared p)\<lparr>frame := Some (fst (updateStyles (options p)
                 ((the (frame (prepared p)))\<lparr>parentNode := Some c\<rparr>) True))\<rparr>),
            Inr True)"
    | (appended) f c where "frame p = Some f" "parentNode f = Some c"
      "repaint p =
           (updateEventEmitters (p\<lparr>frame := Some (fst (updateStyles (options p) f False))\<rparr>),
            Inr (snd (updateStyles (options p) f False)))"
proof (cases "notAppended p")
  case True
  show ?thesis
  proof (cases "container (options p)")
    case None
    with True show ?thesis using raises repaint_raises by blast
  next
    case (Some c)
    with True show ?thesis using appends repaint_appends by blast
  qed
next
  case False
  then obtain f c where "frame p = Some f" "parentNode f = Some c"
    by (auto simp add: notAppended_def split: option.splits)
  then show ?thesis using appended repaint_appended by blast
qed

lemma repaint_other [simp]:
  "options (fst (repaint p)) = options p"
  "listeners (fst (repaint p)) = listeners p"
  "arrays (fst (repaint p)) = arrays p"
  "watchTimer (fst (repaint p)) = watchTimer p"
  "this_top (fst (repaint p)) = this_top p"
  "this_left (fst (repaint p)) = this_left p"
  "this_width (fst (repaint p)) = this_width p"
  "this_height (fst (repaint p)) = this_height p"
  "activeTimers (fst (repaint p)) = activeTimers p"
  "nextTimer (fst (repaint p)) = nextTimer p"
  "resizeListeners (fst (repaint p)) = resizeListeners p"
  "reflowRequests (fst (repaint p)) = reflowRequests p"
  "calls (fst (repaint p)) = calls p"
  "panel_id (fst (repaint p)) = panel_id p"
  by (cases p rule: repaint_cases; simp)+

lemma on_other [simp]:
  "options (fst (on p ev cb)) = options p"
  "watchTimer (fst (on p ev cb)) = watchTimer p"
  "this_top (fst (on p ev cb)) = this_top p"
  "this_left (fst (on p ev cb)) = this_left p"
  "this_width (fst (on p ev cb)) = this_width p"
  "this_height (fst (on p ev cb)) = this_height p"
  "activeTimers (fst (on p ev cb)) = activeTimers p"
  "nextTimer (fst (on p ev cb)) = nextTimer p"
  "resizeListeners (fst (on p ev cb)) = resizeListeners p"
  "reflowRequests (fst (on p ev cb)) = reflowRequests p"
  "calls (fst (on p ev cb)) = calls p"
  "panel_id (fst (on p ev cb)) = panel_id p"
  by (simp_all add: on_def Let_def split_beta split: option.splits)

lemma reflow_other [simp]:
  "options (fst (reflow p)) = options p"
  "listeners (fst (reflow p)) = listeners p"
  "arrays (fst (reflow p)) = arrays p"
  "emitters (fst (reflow p)) = emitters p"
  "frame (fst (reflow p)) = frame p"
  "watchTimer (fst (reflow p)) = watchTimer p"
  "activeTimers (fst (reflow p)) = activeTimers p"
  "nextTimer (fst (reflow p)) = nextTimer p"
  "resizeListeners (fst (reflow p)) = resizeListeners p"
  "reflowRequests (fst (reflow p)) = reflowRequests p"
  "calls (fst (reflow p)) = calls p"
  "panel_id (fst (reflow p)) = panel_id p"
  by (subst reflow_only_geometry, simp)+

lemma runEmitter_other [simp]:
  "options (runEmitter p em e) = options p"
  "listeners (runEmitter p em e) = listeners p"
  "arrays (runEmitter p em e) = arrays p"
  "emitters (runEmitter p em e) = emitters p"
  "frame (runEmitter p em e) = frame p"
  "watchTimer (runEmitter p em e) = watchTimer p"
  "this_top (runEmitter p em e) = this_top p"
  "this_left (runEmitter p em e) = this_left p"
  "this_width (runEmitter p em e) = this_width p"
  "this_height (runEmitter p em e) = this_height p"
  "activeTimers (runEmitter p em e) = activeTimers p"
  "nextTimer (runEmitter p em e) = nextTimer p"
  "resizeListeners (runEmitter p em e) = resizeListeners p"
  "reflowRequests (runEmitter p em e) = reflowRequests p"
  "panel_id (runEmitter p em e) = panel_id p"
  by (simp_all add: runEmitter_def split: emitter.splits)

lemma foldl_runEmitter_other [simp]:
  "options (foldl (\<lambda>q h. runEmitter q (snd h) e) p hs) = options p"
  "listeners (foldl (\<lambda>q h. runEmitter q (snd h) e) p hs) = listeners p"
  "arrays (foldl (\<lambda>q h. runEmitter q (snd h) e) p hs) = arrays p"
  "emitters (foldl (\<lambda>q h. runEmitter q (snd h) e) p hs) = emitters p"
  "frame (foldl (\<lambda>q h. runEmitter q (snd h) e) p hs) = frame p"
  "watchTimer (foldl (\<lambda>q h. runEmitter q (snd h) e) p hs) = watchTimer p"
  "this_top (foldl (\<lambda>q h. runEmitter q (snd h) e) p hs) = this_top p"
  "this_left (foldl (\<lambda>q h. runEmitter q (snd h) e) p hs) = this_left p"
  "this_width (foldl (\<lambda>q h. runEmitter q (snd h) e) p hs) = this_width p"
  "this_height (foldl (\<lambda>q h. runEmitter q (snd h) e) p hs) = this_height p"
  "activeTimers (foldl (\<lambda>q h. runEmitter q (snd h) e) p hs) = activeTimers p"
  "nextTimer (foldl (\<lambda>q h. runEmitter q (snd h) e) p hs) = nextTimer p"
  "resizeListeners (foldl (\<lambda>q h. runEmitter q (snd h) e) p hs) = resizeListeners p"
  "reflowRequests (foldl (\<lambda>q h. runEmitter q (snd h) e) p hs) = reflowRequests p"
  "panel_id (foldl (\<lambda>q h. runEmitter q (snd h) e) p hs) = panel_id p"
  by (induction hs arbitrary: p; simp)+

lemma dispatchEvent_other [simp]:
  "options (dispatchEvent p ev e) = options p"
  "listeners (dispatchEvent p ev e) = listeners p"
  "arrays (dispatchEvent p ev e) = arrays p"
  "emitters (dispatchEvent p ev e) = emitters p"
  "frame (dispatchEvent p ev e) = frame p"
  "watchTimer (dispatchEvent p ev e) = watchTimer p"
  "this_top (dispatchEvent p ev e) = this_top p"
  "this_left (dispatchEvent p ev e) = this_left p"
  "this_width (dispatchEvent p ev e) = this_width p"
  "this_height (dispatchEvent p ev e) = this_height p"
  "activeTimers (dispatchEvent p ev e) = activeTimers p"
  "nextTimer (dispatchEvent p ev e) = nextTimer p"
  "resizeListeners (dispatchEvent p ev e) = resizeListeners p"
  "reflowRequests (dispatchEvent p ev e) = reflowRequests p"
  "panel_id (dispatchEvent p ev e) = panel_id p"
  by (simp_all add: dispatchEvent_def split: option.splits)

lemma layout_other [simp]:
  "options (layout p g) = options p"
  "listeners (layout p g) = listeners p"
  "arrays (layout p g) = arrays p"
  "emitters (layout p g) = emitters p"
  "watchTimer (layout p g) = watchTimer p"
  "this_top (layout p g) = this_top p"
  "this_left (layout p g) = this_left p"
  "this_width (layout p g) = this_width p"
  "this_height (layout p g) = this_height p"
  "activeTimers (layout p g) = activeTimers p"
  "nextTimer (layout p g) = nextTimer p"
  "resizeListeners (layout p g) = resizeListeners p"
  "reflowRequests (layout p g) = reflowRequests p"
  "calls (layout p g) = calls p"
  "panel_id (layout p g) = panel_id p"
  by (simp_all add: layout_def split: option.splits)

lemma checkSize_other [simp]:
  "options (checkSize p) = options p"
  "listeners (checkSize p) = listeners p"
  "arrays (checkSize p) = arrays p"
  "emitters (checkSize p) = emitters p"
  "frame (checkSize p) = frame p"
  "this_top (checkSize p) = this_top p"
  "this_left (checkSize p) = this_left p"
  "this_width (checkSize p) = this_width p"
  "this_height (checkSize p) = this_height p"
  "nextTimer (checkSize p) = nextTimer p"
  "resizeListeners (checkSize p) = resizeListeners p"
  "calls (checkSize p) = calls p"
  "panel_id (checkSize p) = panel_id p"
  by (simp_all add: checkSize_def unwatch_def requestReflow_def split: option.splits)

lemma funpow_checkSize_other [simp]:
  "options ((checkSize ^^ n) p) = options p"
  "listeners ((checkSize ^^ n) p) = listeners p"
  "arrays ((checkSize ^^ n) p) = arrays p"
  "emitters ((checkSize ^^ n) p) = emitters p"
  "frame ((checkSize ^^ n) p) = frame p"
  "this_top ((checkSize ^^ n) p) = this_top p"
  "this_left ((checkSize ^^ n) p) = this_left p"
  "this_width ((checkSize ^^ n) p) = this_width p"
  "this_height ((checkSize ^^ n) p) = this_height p"
  "nextTimer ((checkSize ^^ n) p) = nextTimer p"
  "resizeListeners ((checkSize ^^ n) p) = resizeListeners p"
  "calls ((checkSize ^^ n) p) = calls p"
  "panel_id ((checkSize ^^ n) p) = panel_id p"
  by (induction n; simp)+

lemma setOptions_other [simp]:
  "listeners (setOptions p opts) = listeners p"
  "arrays (setOptions p opts) = arrays p"
  "emitters (setOptions p opts) = emitters p"
  "frame (setOptions p opts) = frame p"
  "this_top (setOptions p opts) = this_top p"
  "this_left (setOptions p opts) = this_left p"
  "this_width (setOptions p opts) = this_width p"
  "this_height (setOptions p opts) = this_height p"
  "reflowRequests (setOptions p opts) = reflowRequests p"
  "calls (setOptions p opts) = calls p"
  "panel_id (setOptions p opts) = panel_id p"
  by (simp_all add: setOptions_def Component_setOptions_def watch_def unwatch_def Let_def
      split: option.splits)

section \<open>The resize watch: the timer invariant\<close>

lemma inv_timer_unwatch: "inv_timer p \<Longrightarrow> inv_timer (unwatch p)"
  by (simp add: inv_timer_def unwatch_def split: option.splits)

lemma unwatch_stops:
  "inv_timer p \<Longrightarrow> watchTimer (unwatch p) = None \<and> activeTimers (unwatch p) = []"
  by (simp add: inv_timer_def unwatch_def split: option.splits)

lemma inv_timer_watch: "inv_timer p \<Longrightarrow> inv_timer (watch p)"
  using unwatch_stops [of p] by (simp add: inv_timer_def watch_def Let_def)

lemma inv_timer_checkSize: "inv_timer p \<Longrightarrow> inv_timer (checkSize p)"
  using inv_timer_unwatch [of p]
  by (simp add: checkSize_def requestReflow_def inv_timer_def split: option.splits)

lemma inv_timer_funpow_checkSize: "inv_timer p \<Longrightarrow> inv_timer ((checkSize ^^ n) p)"
  by (induction n) (simp_all add: inv_timer_checkSize)

lemma inv_timer_setOptions: "inv_timer p \<Longrightarrow> inv_timer (setOptions p opts)"
proof -
  assume p: "inv_timer p"
  have "\<And>q. inv_timer q \<Longrightarrow> inv_timer (Component_setOptions q opts)"
    by (simp add: inv_timer_def Component_setOptions_def)
  then show ?thesis
    using inv_timer_watch [OF p] inv_timer_unwatch [OF p] p
    by (simp add: setOptions_def Let_def split: option.splits)
qed

lemma inv_timer_new: "inv_timer (RootPanel uuid opts)"
  unfolding RootPanel_def
  by (rule inv_timer_setOptions) (simp add: inv_timer_def)

lemma inv_timer_step: "step p q \<Longrightarrow> inv_timer p \<Longrightarrow> inv_timer q"
proof (induction rule: step.induct)
  case (step_setOptions p opts)
  then show ?case by (rule inv_timer_setOptions)
next
  case (step_timerTick p t)
  then show ?case by (simp add: timerTick_def inv_timer_checkSize)
next
  case (step_windowResize p)
  then show ?case by (simp add: windowResize_def inv_timer_funpow_checkSize)
qed (simp_all add: inv_timer_def)

lemma checkSize_watchOff: "watchOff p \<Longrightarrow> checkSize p = p"
  by (simp add: watchOff_def checkSize_def unwatch_def)

lemma funpow_checkSize_watchOff: "watchOff p \<Longrightarrow> (checkSize ^^ n) p = p"
  by (induction n) (simp_all add: checkSize_watchOff)

lemma quiet_watchOff:
  "quiet p q \<Longrightarrow> watchOff p \<Longrightarrow> watchOff q \<and> reflowRequests q = reflowRequests p"
proof (induction rule: quiet.induct)
  case (quiet_setOptions opts p)
  then show ?case
    by (simp add: watchOff_def setOptions_def Component_setOptions_def override_def)
next
  case (quiet_timerTick p t)
  then show ?case by (simp add: timerTick_def watchOff_def)
next
  case (quiet_windowResize p)
  then show ?case by (simp add: windowResize_def funpow_checkSize_watchOff)
qed (simp_all add: watchOff_def)

lemma quiet_rtrancl_watchOff:
  "quiet\<^sup>*\<^sup>* p q \<Longrightarrow> watchOff p \<Longrightarrow> watchOff q \<and> reflowRequests q = reflowRequests p"
proof (induction rule: rtranclp_induct)
  case base
  then show ?case by simp
next
  case (step y z)
  then show ?case using quiet_watchOff [of y z] by simp
qed

lemma setOptions_off:
  assumes "inv_timer p" and "autoResize opts = Some (Plain False)"
  shows "watchOff (setOptions p opts)"
  using assms unwatch_stops [OF assms(1)]
  by (simp add: watchOff_def setOptions_def Component_setOptions_def override_def asBoolean_def
      truthy_autoResize_def Let_def)

lemma sample_watching_eval:
  "sample_watching =
    \<lparr>panel_id = ''root'',
     options = \<lparr>container = Some 7, opt_id = None, className = None, opt_left = None,
         opt_top = None, opt_width = None, opt_height = None,
         autoResize = Some (Plain True)\<rparr>,
     listeners = [], arrays = [], emitters = None,
     frame = Some \<lparr>frame_className = ''graph panel'', parentNode = Some 7,
           style_top = ''0px'', style_left = ''0px'', style_width = ''100%'',
           style_height = ''100%'', offsetTop = 0, offsetLeft = 0,
           offsetWidth = 640, offsetHeight = 480, clientWidth = 640,
           clientHeight = 480, eventListeners = []\<rparr>,
     watchTimer = Some 1, this_top = None, this_left = None,
     this_width = None, this_height = None, activeTimers = [1],
     nextTimer = 2, resizeListeners = 1, reflowRequests = 0, calls = []\<rparr>"
  by (simp add: sample_watching_def sample_options_def sample_geometry_def RootPanel_def
      setOptions_def Component_setOptions_def no_options_def override_def repaint_def
      createFrame_def truthy_className_def updateStyles_def asSize_def readBack_def Let_def
      updateEventEmitters_def layout_def asBoolean_def watch_def unwatch_def)

lemma reachable_sample_watching: "reachable sample_watching"
  unfolding sample_watching_def
  by (intro reachable_step [OF _ step_layout] reachable_step [OF _ step_repaint] reachable_new)

text \<open>
  When \<open>setOptions\<close> sets auto-resize to the boolean false on a panel instance, the
  timer handle is dropped and no interval timer runs; and from then on, through any
  steps that do not set the option again, no interval timer runs and no reflow request
  is issued: a poll tick finds no running timer, and a resize signal runs handlers that
  cancel themselves.
\<close>

lemma setOptions_false_stops_watch:
  assumes "reachable p" and "autoResize opts = Some (Plain False)"
  shows "watchTimer (setOptions p opts) = None \<and> activeTimers (setOptions p opts) = [] \<and>
         (\<forall>q. quiet\<^sup>*\<^sup>* (setOptions p opts) q \<longrightarrow>
            activeTimers q = [] \<and>
            reflowRequests q = reflowRequests (setOptions p opts) \<and>
            (\<forall>t. reflowRequests (timerTick q t) = reflowRequests (setOptions p opts)) \<and>
            reflowRequests (windowResize q) = reflowRequests (setOptions p opts))"
proof -
  have "inv_timer p"
    using assms(1) by (induction rule: reachable.induct) (simp_all add: inv_timer_new inv_timer_step)
  then have off: "watchOff (setOptions p opts)"
    using assms(2) by (rule setOptions_off)
  have later: "watchOff q \<and> reflowRequests q = reflowRequests (setOptions p opts)"
    if "quiet\<^sup>*\<^sup>* (setOptions p opts) q" for q
    using quiet_rtrancl_watchOff [OF that off] .
  have tick: "reflowRequests (timerTick q t) = reflowRequests q" if "watchOff q" for q t
    using that by (simp add: timerTick_def watchOff_def)
  have resize: "reflowRequests (windowResize q) = reflowRequests q" if "watchOff q" for q
    using that by (simp add: windowResize_def funpow_checkSize_watchOff)
  show ?thesis
    using off later tick resize by (simp add: watchOff_def)
qed


lemma setOptions_false_stops_watch_sample:
  "reachable sample_watching \<and> autoResize autoResize_off = Some (Plain False) \<and>
   watchTimer sample_watching = Some 1 \<and>
   reflowRequests (timerTick sample_watching 1) = Suc (reflowRequests sample_watching) \<and>
   watchTimer (setOptions sample_watching autoResize_off) = None \<and>
   activeTimers (setOptions sample_watching autoResize_off) = [] \<and>
   reflowRequests (windowResize (timerTick (setOptions sample_watching autoResize_off) 1)) =
     reflowRequests (setOptions sample_watching autoResize_off)"
proof -
  let ?P = "setOptions sample_watching autoResize_off"
  have off: "autoResize autoResize_off = Some (Plain False)"
    by (simp add: autoResize_off_def no_options_def)
  have before: "watchTimer sample_watching = Some 1"
    "reflowRequests (timerTick sample_watching 1) = Suc (reflowRequests sample_watching)"
    by (simp_all add: sample_watching_eval timerTick_def checkSize_def truthy_autoResize_def
        requestReflow_def)
  have q: "quiet\<^sup>*\<^sup>* ?P (timerTick ?P 1)"
    by (rule r_into_rtranclp) (rule quiet_timerTick)
  from setOptions_false_stops_watch [OF reachable_sample_watching off]
  have "watchTimer ?P = None" "activeTimers ?P = []"
    "reflowRequests (windowResize (timerTick ?P 1)) = reflowRequests ?P"
    using q by blast+
  with reachable_sample_watching off before show ?thesis by blast
qed

text \<open>
  C3. The option may also be a function producing the boolean. On a panel that watches
  its frame (the frame is laid out at 640 by 480, the cached size is still undefined),
  \<open>setOptions\<close> with a function producing false takes the option for false and stops
  the timer; but the stored option is the function, which \<open>checkSize\<close> tests as it
  is and takes for enabled. The resize handler left on the window does not cancel
  itself: on the next resize signal it requests a reflow.
\<close>

theorem autoResize_function_false_keeps_reflowing:
  "watchTimer (setOptions sample_watching (no_options\<lparr>autoResize := Some (Producing False)\<rparr>)) = None \<and>
   activeTimers (setOptions sample_watching (no_options\<lparr>autoResize := Some (Producing False)\<rparr>)) = [] \<and>
   reflowRequests (windowResize
     (setOptions sample_watching (no_options\<lparr>autoResize := Some (Producing False)\<rparr>))) =
   Suc (reflowRequests sample_watching)"
  by (simp add: sample_watching_eval setOptions_def Component_setOptions_def no_options_def
      override_def asBoolean_def unwatch_def windowResize_def checkSize_def
      truthy_autoResize_def requestReflow_def Let_def)

section \<open>Registration of listeners\<close>

lemma fst_on:
  "fst (on p ev cb) =
     (if ev \<in> set objectPrototypeNames then p else updateEventEmitters (registered p ev cb))"
  by (simp add: on_def registered_def Let_def list_update_length split: option.splits)

lemma snd_on:
  "snd (on p ev cb) = (if ev \<in> set objectPrototypeNames then Some TypeError else None)"
  by (simp add: on_def Let_def split_beta)

lemma on_returns: "snd (on p ev cb) = None \<longleftrightarrow> ev \<notin> set objectPrototypeNames"
  by (simp add: snd_on)

lemma registered_other [simp]:
  "emitters (registered p ev cb) = emitters p"
  "frame (registered p ev cb) = frame p"
  "options (registered p ev cb) = options p"
  "calls (registered p ev cb) = calls p"
  by (simp_all add: registered_def split: option.splits)

lemma map_of_None_keys: "map_of xs k = None \<longleftrightarrow> k \<notin> fst ` set xs"
  by (simp add: map_of_eq_None_iff)

lemma inv_listeners_registered:
  assumes "inv_listeners p" and "ev \<notin> set objectPrototypeNames"
  shows "inv_listeners (registered p ev cb)"
proof (cases "map_of (listeners p) ev")
  case None
  then have new: "ev \<notin> fst ` set (listeners p)"
    by (simp add: map_of_eq_None_iff)
  have old: "\<forall>en \<in> set (listeners p).
      fst en \<notin> set objectPrototypeNames \<and> snd en < length (arrays p) \<and> arrays p ! snd en \<noteq> []"
    using assms(1) by (simp add: inv_listeners_def)
  have "\<forall>en \<in> set (listeners p). fst en \<notin> set objectPrototypeNames \<and>
          snd en < Suc (length (arrays p)) \<and> (arrays p @ [[cb]]) ! snd en \<noteq> []"
    using old by (auto simp add: nth_append)
  moreover have "length (arrays p) \<notin> snd ` set (listeners p)"
    using old by auto
  ultimately show ?thesis
    using assms new None by (simp add: inv_listeners_def registered_def)
next
  case (Some r)
  then have "(ev, r) \<in> set (listeners p)"
    by (rule map_of_SomeD)
  then have r: "r < length (arrays p)"
    using assms(1) by (auto simp add: inv_listeners_def)
  have "\<forall>en \<in> set (listeners p). fst en \<notin> set objectPrototypeNames \<and>
          snd en < length (arrays p) \<and> (arrays p)[r := arrays p ! r @ [cb]] ! snd en \<noteq> []"
    using assms(1) r by (auto simp add: inv_listeners_def nth_list_update)
  then show ?thesis
    using assms(1) Some r by (simp add: inv_listeners_def registered_def)
qed

lemma inv_listeners_on: "inv_listeners p \<Longrightarrow> inv_listeners (fst (on p ev cb))"
  using inv_listeners_registered [of p ev cb]
  by (simp add: fst_on inv_listeners_def)

lemma listenersOf_registered:
  assumes "inv_listeners p"
  shows "listenersOf (registered p ev cb) ev' =
           (if ev' = ev then listenersOf p ev @ [cb] else listenersOf p ev')"
proof (cases "map_of (listeners p) ev")
  case None
  then have new: "ev \<notin> fst ` set (listeners p)"
    by (simp add: map_of_eq_None_iff)
  show ?thesis
  proof (cases "ev' = ev")
    case True
    then show ?thesis
      using None new by (simp add: listenersOf_def registered_def map_add_def)
  next
    case False
    show ?thesis
    proof (cases "map_of (listeners p) ev'")
      case n: None
      then show ?thesis using None False
        by (simp add: listenersOf_def registered_def map_add_def)
    next
      case (Some r')
      then have "(ev', r') \<in> set (listeners p)" by (rule map_of_SomeD)
      then have "r' < length (arrays p)"
        using assms by (auto simp add: inv_listeners_def)
      then show ?thesis using None False Some
        by (simp add: listenersOf_def registered_def map_add_def nth_append)
    qed
  qed
next
  case (Some r)
  then have "(ev, r) \<in> set (listeners p)"
    by (rule map_of_SomeD)
  then have r: "r < length (arrays p)"
    using assms by (auto simp add: inv_listeners_def)
  show ?thesis
  proof (cases "ev' = ev")
    case True
    then show ?thesis using Some r by (simp add: listenersOf_def registered_def)
  next
    case False
    show ?thesis
    proof (cases "map_of (listeners p) ev'")
      case None
      then show ?thesis using Some r False by (simp add: listenersOf_def registered_def)
    next
      case s: (Some r')
      then have "(ev', r') \<in> set (listeners p)" by (rule map_of_SomeD)
      moreover have "inj_on snd (set (listeners p))"
        using assms by (simp add: inv_listeners_def distinct_map)
      ultimately have "r' \<noteq> r"
        using \<open>(ev, r) \<in> set (listeners p)\<close> False
          inj_onD [of snd "set (listeners p)" "(ev', r')" "(ev, r)"] by auto
      then show ?thesis using Some r s False
        by (simp add: listenersOf_def registered_def)
    qed
  qed
qed

section \<open>Synchronisation of the dispatch closures\<close>

lemma updateEmitter_no_frame:
  "frame p = None \<Longrightarrow> updateEmitter p en = p\<lparr>emitters := Some (emittersOf p)\<rparr>"
  by (simp add: updateEmitter_def emittersOf_def Let_def split: option.splits)

lemma updateEmitter_known:
  "fst en \<in> fst ` set (emittersOf p) \<or> fst en \<in> set objectPrototypeNames \<Longrightarrow>
     updateEmitter p en = p\<lparr>emitters := Some (emittersOf p)\<rparr>"
  by (auto simp add: updateEmitter_def emittersOf_def Let_def split: option.splits)

lemma updateEmitter_new:
  "frame p = Some f \<Longrightarrow> fst en \<notin> fst ` set (emittersOf p) \<Longrightarrow>
     fst en \<notin> set objectPrototypeNames \<Longrightarrow>
     updateEmitter p en =
       p\<lparr>emitters := Some (emittersOf p @ [(fst en, Emitter (snd en))]),
         frame := Some (f\<lparr>eventListeners := eventListeners f @ [(fst en, Emitter (snd en))]\<rparr>)\<rparr>"
  by (auto simp add: updateEmitter_def emittersOf_def Let_def split: option.splits)

lemma emittersOf_update [simp]:
  "emittersOf (p\<lparr>emitters := Some es\<rparr>) = es"
  "emittersOf (p\<lparr>emitters := Some es, frame := fr\<rparr>) = es"
  "emittersOf (p\<lparr>frame := fr\<rparr>) = emittersOf p"
  by (simp_all add: emittersOf_def)

lemma emittersOf_cong: "emitters q = emitters p \<Longrightarrow> emittersOf q = emittersOf p"
  by (simp add: emittersOf_def)

lemma emitters_updateEmitter: "emitters (updateEmitter p en) \<noteq> None"
  by (simp add: updateEmitter_def Let_def split: option.splits)

lemma emittersOf_updateEmitter_mono:
  "set (emittersOf p) \<subseteq> set (emittersOf (updateEmitter p en))"
  by (cases "frame p";
      cases "fst en \<in> fst ` set (emittersOf p) \<or> fst en \<in> set objectPrototypeNames")
     (auto simp add: updateEmitter_no_frame updateEmitter_known updateEmitter_new)

lemma emittersOf_updateEmitter_key:
  "frame p \<noteq> None \<Longrightarrow> fst en \<notin> set objectPrototypeNames \<Longrightarrow>
     fst en \<in> fst ` set (emittersOf (updateEmitter p en))"
  by (cases "frame p"; cases "fst en \<in> fst ` set (emittersOf p)")
     (auto simp add: updateEmitter_known updateEmitter_new)

lemma frame_updateEmitter_Some: "frame p \<noteq> None \<Longrightarrow> frame (updateEmitter p en) \<noteq> None"
  using updateEmitter_frame [of p en] by (cases "frame p"; cases "frame (updateEmitter p en)") auto

lemma frame_updateEmitter_None: "frame p = None \<Longrightarrow> frame (updateEmitter p en) = None"
  by (simp add: updateEmitter_no_frame)

lemma inv_emitters_updateEmitter:
  assumes "inv_emitters p" and "en \<in> set (listeners p)"
  shows "inv_emitters (updateEmitter p en)"
proof (cases "fst en \<in> fst ` set (emittersOf p) \<or> fst en \<in> set objectPrototypeNames")
  case True
  then show ?thesis
    using assms by (simp add: updateEmitter_known inv_emitters_def split: option.splits)
next
  case False
  show ?thesis
  proof (cases "frame p")
    case None
    then show ?thesis
      using assms by (simp add: updateEmitter_no_frame inv_emitters_def split: option.splits)
  next
    case (Some f)
    have "(fst en, snd en) \<in> set (listeners p)"
      using assms(2) by simp
    then show ?thesis
      using assms False Some
      by (auto simp add: updateEmitter_new inv_emitters_def)
  qed
qed

lemma inv_emitters_foldl:
  "inv_emitters p \<Longrightarrow> set ls \<subseteq> set (listeners p) \<Longrightarrow> inv_emitters (foldl updateEmitter p ls)"
proof (induction ls arbitrary: p)
  case Nil
  then show ?case by simp
next
  case (Cons en ls)
  then show ?case
    using inv_emitters_updateEmitter [of p en] by simp
qed

lemma inv_emitters_updateEventEmitters:
  "inv_emitters p \<Longrightarrow> inv_emitters (updateEventEmitters p)"
  by (simp add: updateEventEmitters_def inv_emitters_foldl)

lemma cover_foldl:
  "frame p \<noteq> None \<Longrightarrow> \<forall>en \<in> set ls. fst en \<notin> set objectPrototypeNames \<Longrightarrow>
     fst ` set ls \<union> fst ` set (emittersOf p) \<subseteq> fst ` set (emittersOf (foldl updateEmitter p ls)) \<and>
     (ls \<noteq> [] \<longrightarrow> emitters (foldl updateEmitter p ls) \<noteq> None) \<and>
     (emitters p \<noteq> None \<longrightarrow> emitters (foldl updateEmitter p ls) \<noteq> None)"
proof (induction ls arbitrary: p)
  case Nil
  then show ?case by simp
next
  case (Cons en ls)
  have f: "frame (updateEmitter p en) \<noteq> None"
    using Cons.prems(1) by (rule frame_updateEmitter_Some)
  have n: "\<forall>en \<in> set ls. fst en \<notin> set objectPrototypeNames"
    using Cons.prems(2) by simp
  note ih = Cons.IH [OF f n]
  have k: "fst en \<in> fst ` set (emittersOf (updateEmitter p en))"
    using Cons.prems by (simp add: emittersOf_updateEmitter_key)
  have m: "fst ` set (emittersOf p) \<subseteq> fst ` set (emittersOf (updateEmitter p en))"
    using emittersOf_updateEmitter_mono [of p en] by auto
  have e: "emitters (updateEmitter p en) \<noteq> None"
    by (rule emitters_updateEmitter)
  have "fst ` set (en # ls) \<union> fst ` set (emittersOf p)
          \<subseteq> fst ` set ls \<union> fst ` set (emittersOf (updateEmitter p en))"
    using k m by auto
  also have "\<dots> \<subseteq> fst ` set (emittersOf (foldl updateEmitter (updateEmitter p en) ls))"
    using ih by blast
  finally have 1: "fst ` set (en # ls) \<union> fst ` set (emittersOf p)
          \<subseteq> fst ` set (emittersOf (foldl updateEmitter p (en # ls)))"
    by simp
  have 2: "emitters (foldl updateEmitter p (en # ls)) \<noteq> None"
    using ih e by simp
  from 1 2 show ?case by blast
qed

lemma cover_updateEventEmitters:
  assumes "frame p \<noteq> None" and "\<forall>en \<in> set (listeners p). fst en \<notin> set objectPrototypeNames"
  shows "fst ` set (listeners p) \<subseteq> fst ` set (emittersOf (updateEventEmitters p))"
    and "listeners p \<noteq> [] \<Longrightarrow> emitters (updateEventEmitters p) \<noteq> None"
  using cover_foldl [OF assms(1), of "listeners p"] assms(2)
  by (simp_all add: updateEventEmitters_def)

lemma frame_foldl_None: "frame p = None \<Longrightarrow> frame (foldl updateEmitter p ls) = None"
  by (induction ls arbitrary: p) (simp_all add: frame_updateEmitter_None)

lemma inv_cover_updateEventEmitters:
  assumes "\<forall>en \<in> set (listeners p). fst en \<notin> set objectPrototypeNames"
  shows "inv_cover (updateEventEmitters p)"
proof (cases "frame p")
  case None
  then show ?thesis
    by (simp add: inv_cover_def updateEventEmitters_def frame_foldl_None)
next
  case (Some f)
  then have "frame p \<noteq> None" by simp
  from cover_updateEventEmitters [OF this assms] show ?thesis
    by (simp add: inv_cover_def)
qed

lemma inv_listeners_names:
  "inv_listeners p \<Longrightarrow> \<forall>en \<in> set (listeners p). fst en \<notin> set objectPrototypeNames"
  by (simp add: inv_listeners_def)

text \<open>Where every event already has its closure, the synchronisation changes nothing.\<close>

lemma updateEmitter_fixed:
  "emitters p \<noteq> None \<Longrightarrow> fst en \<in> fst ` set (emittersOf p) \<Longrightarrow> updateEmitter p en = p"
  by (cases "emitters p") (auto simp add: updateEmitter_known emittersOf_def)

lemma foldl_updateEmitter_fixed:
  "emitters p \<noteq> None \<Longrightarrow> fst ` set ls \<subseteq> fst ` set (emittersOf p) \<Longrightarrow>
     foldl updateEmitter p ls = p"
  by (induction ls) (simp_all add: updateEmitter_fixed)

lemma updateEventEmitters_fixed:
  assumes "fst ` set (listeners p) \<subseteq> fst ` set (emittersOf p)"
    and "listeners p \<noteq> [] \<longrightarrow> emitters p \<noteq> None"
  shows "updateEventEmitters p = p"
proof (cases "listeners p = []")
  case True
  then show ?thesis by (simp add: updateEventEmitters_def)
next
  case False
  then show ?thesis
    using assms by (simp add: updateEventEmitters_def foldl_updateEmitter_fixed)
qed

section \<open>The invariants hold in every panel instance\<close>

lemma inv_listeners_cong:
  "listeners q = listeners p \<Longrightarrow> arrays q = arrays p \<Longrightarrow> inv_listeners p \<Longrightarrow> inv_listeners q"
  by (simp add: inv_listeners_def)

lemma inv_emitters_cong:
  "listeners q = listeners p \<Longrightarrow> emitters q = emitters p \<Longrightarrow> frame q = frame p \<Longrightarrow>
     inv_emitters p \<Longrightarrow> inv_emitters q"
  using emittersOf_cong [of q p] by (simp add: inv_emitters_def split: option.splits)

lemma inv_cover_cong:
  "listeners q = listeners p \<Longrightarrow> emitters q = emitters p \<Longrightarrow> frame q = frame p \<Longrightarrow>
     inv_cover p \<Longrightarrow> inv_cover q"
  using emittersOf_cong [of q p] by (simp add: inv_cover_def)

lemma invariants_same:
  assumes "listeners q = listeners p" "arrays q = arrays p" "emitters q = emitters p"
    "frame q = frame p" and "inv_listeners p \<and> inv_emitters p \<and> inv_cover p"
  shows "inv_listeners q \<and> inv_emitters q \<and> inv_cover q"
  using assms inv_listeners_cong [of q p] inv_emitters_cong [of q p] inv_cover_cong [of q p]
  by blast

lemma eventListeners_createFrame [simp]: "eventListeners (createFrame opts) = []"
  by (simp add: createFrame_def Let_def addClassName_def)

lemma eventListeners_updateStyles [simp]:
  "eventListeners (fst (updateStyles opts f ch)) = eventListeners f"
  by (simp add: updateStyles_frame)

lemma parentNode_updateStyles [simp]:
  "parentNode (fst (updateStyles opts f ch)) = parentNode f"
  by (simp add: updateStyles_frame)

lemma inv_emitters_prepared: "inv_emitters p \<Longrightarrow> inv_emitters (prepared p)"
  by (cases "frame p") (simp_all add: inv_emitters_def prepared_def emittersOf_def)

lemma inv_emitters_restyle:
  assumes "inv_emitters p" and "frame p = Some f" and "eventListeners g = eventListeners f"
  shows "inv_emitters (p\<lparr>frame := Some g\<rparr>)"
  using assms by (simp add: inv_emitters_def)

lemma frame_prepared: "\<exists>f. frame (prepared p) = Some f"
  by (cases "frame p") (simp_all add: prepared_def)

lemma inv_emitters_repaint:
  assumes "inv_emitters p"
  shows "inv_emitters (fst (repaint p))"
proof (cases p rule: repaint_cases)
  case raises
  then show ?thesis using assms by (simp add: inv_emitters_prepared)
next
  case (appends c)
  obtain f where f: "frame (prepared p) = Some f"
    using frame_prepared by blast
  have "inv_emitters ((prepared p)\<lparr>frame := Some (fst (updateStyles (options p)
          (f\<lparr>parentNode := Some c\<rparr>) True))\<rparr>)"
    by (rule inv_emitters_restyle [OF inv_emitters_prepared [OF assms] f]) simp
  then show ?thesis
    using appends f by (simp add: inv_emitters_updateEventEmitters)
next
  case (appended f c)
  have "inv_emitters (p\<lparr>frame := Some (fst (updateStyles (options p) f False))\<rparr>)"
    by (rule inv_emitters_restyle [OF assms appended(1)]) simp
  then show ?thesis
    using appended by (simp add: inv_emitters_updateEventEmitters)
qed

lemma listeners_registered_mono: "set (listeners p) \<subseteq> set (listeners (registered p ev cb))"
  by (auto simp add: registered_def split: option.splits)

lemma inv_emitters_registered:
  assumes "inv_emitters p"
  shows "inv_emitters (registered p ev cb)"
proof -
  have same: "emittersOf (registered p ev cb) = emittersOf p"
    by (rule emittersOf_cong) simp
  have "\<exists>r. snd h = Emitter r \<and> (fst h, r) \<in> set (listeners (registered p ev cb))"
    if "h \<in> set (emittersOf p)" for h
    using that assms listeners_registered_mono [of p ev cb] unfolding inv_emitters_def by blast
  then show ?thesis
    using assms by (simp add: inv_emitters_def same split: option.splits)
qed

lemma inv_emitters_on: "inv_emitters p \<Longrightarrow> inv_emitters (fst (on p ev cb))"
  by (simp add: fst_on inv_emitters_updateEventEmitters inv_emitters_registered)

lemma inv_cover_on:
  assumes "inv_listeners p" and "inv_cover p"
  shows "inv_cover (fst (on p ev cb))"
proof (cases "ev \<in> set objectPrototypeNames")
  case True
  then show ?thesis using assms(2) by (simp add: fst_on)
next
  case False
  then have "inv_listeners (registered p ev cb)"
    using assms(1) by (simp add: inv_listeners_registered)
  then have "inv_cover (updateEventEmitters (registered p ev cb))"
    by (intro inv_cover_updateEventEmitters inv_listeners_names)
  then show ?thesis using False by (simp add: fst_on)
qed

lemma inv_emitters_layout: "inv_emitters p \<Longrightarrow> inv_emitters (layout p g)"
  by (cases "frame p") (simp_all add: inv_emitters_def layout_def emittersOf_def)

lemma inv_cover_layout: "inv_cover p \<Longrightarrow> inv_cover (layout p g)"
  by (cases "frame p") (simp_all add: inv_cover_def layout_def emittersOf_def)

lemma inv_cover_repaint:
  assumes "inv_listeners p"
  shows "inv_cover (fst (repaint p))"
proof (cases p rule: repaint_cases)
  case raises
  then show ?thesis
    by (cases "frame p") (simp_all add: inv_cover_def prepared_def notAppended_def)
next
  case (appends c)
  then show ?thesis
    using inv_listeners_names [OF assms] by (simp add: inv_cover_updateEventEmitters)
next
  case (appended f c)
  then show ?thesis
    using inv_listeners_names [OF assms] by (simp add: inv_cover_updateEventEmitters)
qed

lemma invariant_new: "invariant (RootPanel uuid opts)"
proof -
  let ?p0 = "\<lparr>panel_id = uuid,
        options = no_options\<lparr>autoResize := Some (Plain True)\<rparr>,
        listeners = [], arrays = [], emitters = None, frame = None, watchTimer = None,
        this_top = None, this_left = None, this_width = None, this_height = None,
        activeTimers = [], nextTimer = 1, resizeListeners = 0, reflowRequests = 0,
        calls = []\<rparr>"
  have "inv_listeners ?p0 \<and> inv_emitters ?p0 \<and> inv_cover ?p0"
    by (simp add: inv_listeners_def inv_emitters_def inv_cover_def emittersOf_def)
  then have "inv_listeners (setOptions ?p0 opts) \<and> inv_emitters (setOptions ?p0 opts) \<and>
    inv_cover (setOptions ?p0 opts)"
    by (rule invariants_same [rotated 4]) simp_all
  then show ?thesis
    using inv_timer_new [of uuid opts] by (simp add: invariant_def RootPanel_def)
qed

lemma invariant_step:
  assumes "step p q" and "invariant p"
  shows "invariant q"
proof -
  from assms(2) have t: "inv_timer p" and l: "inv_listeners p" and e: "inv_emitters p"
    and c: "inv_cover p"
    by (simp_all add: invariant_def)
  from l e c have lec: "inv_listeners p \<and> inv_emitters p \<and> inv_cover p"
    by simp
  have "inv_timer q"
    using assms(1) t by (rule inv_timer_step)
  moreover from assms(1) have "inv_listeners q \<and> inv_emitters q \<and> inv_cover q"
  proof (cases rule: step.cases)
    case (step_setOptions opts)
    show ?thesis
      unfolding step_setOptions by (rule invariants_same [OF _ _ _ _ lec]) simp_all
  next
    case step_repaint
    have "inv_listeners (fst (repaint p))"
      by (rule inv_listeners_cong [OF _ _ l]) simp_all
    then show ?thesis
      unfolding step_repaint using e l by (simp add: inv_emitters_repaint inv_cover_repaint)
  next
    case step_reflow
    show ?thesis
      unfolding step_reflow by (rule invariants_same [OF _ _ _ _ lec]) simp_all
  next
    case (step_on ev cb)
    show ?thesis
      unfolding step_on using l e c by (simp add: inv_listeners_on inv_emitters_on inv_cover_on)
  next
    case (step_timerTick t)
    show ?thesis
      unfolding step_timerTick timerTick_def
      by (rule invariants_same [OF _ _ _ _ lec]) simp_all
  next
    case step_windowResize
    show ?thesis
      unfolding step_windowResize windowResize_def
      by (rule invariants_same [OF _ _ _ _ lec]) simp_all
  next
    case (step_dispatchEvent ev e)
    show ?thesis
      unfolding step_dispatchEvent by (rule invariants_same [OF _ _ _ _ lec]) simp_all
  next
    case (step_layout g)
    have "inv_listeners (layout p g)"
      by (rule inv_listeners_cong [OF _ _ l]) simp_all
    then show ?thesis
      unfolding step_layout using e c by (simp add: inv_emitters_layout inv_cover_layout)
  qed
  ultimately show ?thesis by (simp add: invariant_def)
qed

lemma reachable_invariant: "reachable p \<Longrightarrow> invariant p"
  by (induction rule: reachable.induct) (auto intro: invariant_new invariant_step)

lemma step_reachable: "step\<^sup>*\<^sup>* p q \<Longrightarrow> reachable p \<Longrightarrow> reachable q"
  by (induction rule: rtranclp_induct) (auto intro: reachable_step)

section \<open>Repaint: the value returned\<close>

text \<open>
  The value returned is true exactly when the frame was not yet appended or one of the
  four style fields differed from the configured string.
\<close>

lemma repaint_changed_iff:
  assumes "repaint p = (q, Inr changed)"
  shows "changed \<longleftrightarrow>
           notAppended p \<or>
           (\<exists>f. frame p = Some f \<and>
              (style_top f \<noteq> asSize (opt_top (options p)) ''0'' \<or>
               style_left f \<noteq> asSize (opt_left (options p)) ''0'' \<or>
               style_width f \<noteq> asSize (opt_width (options p)) ''100%'' \<or>
               style_height f \<noteq> asSize (opt_height (options p)) ''100%''))"
proof (cases p rule: repaint_cases)
  case raises
  then show ?thesis using assms by simp
next
  case (appends c)
  then show ?thesis using assms by auto
next
  case (appended f c)
  then have "\<not> notAppended p"
    by (simp add: notAppended_def)
  then show ?thesis
    using appended assms by (auto simp add: updateStyles_changed)
qed

text \<open>
  A \<open>repaint\<close> of a panel instance that returns false has changed nothing: no style was
  written, and the synchronisation found every event with its dispatch closure.
\<close>

lemma updateStyles_same:
  assumes "\<not> snd (updateStyles opts f False)"
  shows "fst (updateStyles opts f False) = f"
  using assms by (simp add: updateStyles_changed updateStyles_frame written_def)

lemma repaint_unchanged:
  assumes "inv_cover p" and "repaint p = (q, Inr False)"
  shows "q = p"
proof (cases p rule: repaint_cases)
  case raises
  then show ?thesis using assms by simp
next
  case (appends c)
  then show ?thesis using assms by simp
next
  case (appended f c)
  then have same: "fst (updateStyles (options p) f False) = f"
    using assms(2) by (simp add: updateStyles_same)
  have p: "p\<lparr>frame := Some f\<rparr> = p"
    using appended(1) by simp
  have "updateEventEmitters p = p"
    using assms(1) appended(1,2) by (intro updateEventEmitters_fixed) (simp_all add: inv_cover_def)
  then show ?thesis
    using appended(3) assms(2) by (simp add: same p)
qed

text \<open>
  C5. A panel with a container and the default configuration, after its first
  \<open>repaint\<close>: the frame exists, is in the container, and reads \<open>0px\<close>, \<open>0px\<close>,
  \<open>100%\<close>, \<open>100%\<close>. The next \<open>repaint\<close> compares \<open>0px\<close> with the default \<open>0\<close>,
  writes \<open>0\<close> again, which reads back as \<open>0px\<close>, and returns true, although the state
  it leaves is the state it found: nothing was created, attached or changed.
\<close>

theorem repaint_default_true_without_change:
  "(\<exists>f. frame (fst (repaint sample_panel)) = Some f \<and> parentNode f = Some 7 \<and>
      style_top f = ''0px'' \<and> style_left f = ''0px'' \<and>
      style_width f = ''100%'' \<and> style_height f = ''100%'') \<and>
   asSize (opt_top (options (fst (repaint sample_panel)))) ''0'' = ''0'' \<and>
   asSize (opt_left (options (fst (repaint sample_panel)))) ''0'' = ''0'' \<and>
   repaint (fst (repaint sample_panel)) = (fst (repaint sample_panel), Inr True)"
proof -
  have 1: "\<exists>f. frame (fst (repaint sample_panel)) = Some f \<and> parentNode f = Some 7 \<and>
      style_top f = ''0px'' \<and> style_left f = ''0px'' \<and>
      style_width f = ''100%'' \<and> style_height f = ''100%''"
    by (simp add: sample_painted_eval)
  have 2: "asSize (opt_top (options (fst (repaint sample_panel)))) ''0'' = ''0''"
    "asSize (opt_left (options (fst (repaint sample_panel)))) ''0'' = ''0''"
    by (simp_all add: sample_painted_eval asSize_def)
  from 1 2 sample_painted_repaint show ?thesis by blast
qed

section \<open>Dispatch of events to listeners\<close>


lemma forEachCalls_reaches:
  "\<forall>l \<in> set pre. \<not> cb_raises l e \<Longrightarrow> cb \<in> set (forEachCalls (pre @ cb # post) e)"
  by (induction pre) simp_all


lemma filter_key_absent: "k \<notin> fst ` set xs \<Longrightarrow> filter (\<lambda>h. fst h = k) xs = []"
  by (induction xs) auto

lemma filter_key_distinct:
  "distinct (map fst xs) \<Longrightarrow>
     filter (\<lambda>h. fst h = k) xs = (case map_of xs k of None \<Rightarrow> [] | Some v \<Rightarrow> [(k, v)])"
proof (induction xs)
  case Nil
  then show ?case by simp
next
  case (Cons x xs)
  then show ?case
    by (cases x) (auto simp add: filter_key_absent split: option.splits)
qed

lemma attached_eq:
  assumes "inv_emitters p"
  shows "attached p ev = (case map_of (emittersOf p) ev of None \<Rightarrow> [] | Some em \<Rightarrow> [em])"
proof (cases "frame p")
  case None
  then show ?thesis
    using assms by (simp add: attached_def inv_emitters_def)
next
  case (Some f)
  then have "eventListeners f = emittersOf p" "distinct (map fst (eventListeners f))"
    using assms by (simp_all add: inv_emitters_def)
  then show ?thesis
    using Some filter_key_distinct [of "eventListeners f" ev]
    by (simp add: attached_def split: option.splits)
qed

lemma attached_nonempty_iff:
  "inv_emitters p \<Longrightarrow> attached p ev \<noteq> [] \<longleftrightarrow> ev \<in> fst ` set (emittersOf p)"
  using map_of_eq_None_iff [of "emittersOf p" ev]
  by (cases "map_of (emittersOf p) ev") (simp_all add: attached_eq)

lemma attached_frame: "attached p ev \<noteq> [] \<Longrightarrow> frame p \<noteq> None"
  by (cases "frame p") (simp_all add: attached_def)

lemma emitter_of_event:
  assumes "inv_listeners p" and "inv_emitters p" and "(ev, em) \<in> set (emittersOf p)"
  shows "\<exists>r. em = Emitter r \<and> map_of (listeners p) ev = Some r \<and> r < length (arrays p) \<and>
           arrays p ! r \<noteq> [] \<and> listenersOf p ev = arrays p ! r \<and>
           ev \<notin> set objectPrototypeNames"
proof -
  from assms(2,3) obtain r where r: "em = Emitter r" "(ev, r) \<in> set (listeners p)"
    by (fastforce simp add: inv_emitters_def)
  then have m: "map_of (listeners p) ev = Some r"
    using assms(1) by (simp add: inv_listeners_def)
  have "ev \<notin> set objectPrototypeNames \<and> r < length (arrays p) \<and> arrays p ! r \<noteq> []"
    using assms(1) r(2) by (fastforce simp add: inv_listeners_def)
  then show ?thesis
    using r(1) m by (simp add: listenersOf_def)
qed

lemma dispatchEvent_calls:
  assumes "inv_listeners p" and "inv_emitters p"
  shows "calls (dispatchEvent p ev e) =
           calls p @ (if attached p ev = [] then []
                      else map (\<lambda>cb. (cb, e)) (forEachCalls (listenersOf p ev) e))"
proof (cases "frame p")
  case None
  then show ?thesis by (simp add: dispatchEvent_def attached_def)
next
  case (Some f)
  then have f: "eventListeners f = emittersOf p" "distinct (map fst (eventListeners f))"
    using assms(2) by (simp_all add: inv_emitters_def)
  show ?thesis
  proof (cases "map_of (emittersOf p) ev")
    case None
    then show ?thesis
      using Some f filter_key_distinct [of "eventListeners f" ev]
      by (simp add: dispatchEvent_def attached_def)
  next
    case em: (Some em)
    then have "(ev, em) \<in> set (emittersOf p)"
      by (rule map_of_SomeD)
    from emitter_of_event [OF assms this] obtain r where r: "em = Emitter r"
      "r < length (arrays p)" "listenersOf p ev = arrays p ! r"
      by blast
    show ?thesis
      using Some f em r filter_key_distinct [of "eventListeners f" ev]
      by (simp add: dispatchEvent_def attached_def runEmitter_def)
  qed
qed

lemma sample_listening_eval:
  "sample_listening =
    \<lparr>panel_id = ''root'',
     options = \<lparr>container = Some 7, opt_id = None, className = None, opt_left = None,
         opt_top = None, opt_width = None, opt_height = None,
         autoResize = Some (Plain True)\<rparr>,
     listeners = [(''click'', 0)], arrays = [[listener1]],
     emitters = Some [(''click'', Emitter 0)],
     frame = Some \<lparr>frame_className = ''graph panel'', parentNode = Some 7,
          style_top = ''0px'', style_left = ''0px'', style_width = ''100%'',
          style_height = ''100%'', offsetTop = 0, offsetLeft = 0,
          offsetWidth = 0, offsetHeight = 0, clientWidth = 0,
          clientHeight = 0, eventListeners = [(''click'', Emitter 0)]\<rparr>,
     watchTimer = None, this_top = None, this_left = None, this_width = None,
     this_height = None, activeTimers = [], nextTimer = 1,
     resizeListeners = 0, reflowRequests = 0, calls = []\<rparr>"
  by (simp add: sample_listening_def sample_painted_eval on_def objectPrototypeNames_def
      Let_def updateEventEmitters_def updateEmitter_def)

lemma reachable_sample_panel: "reachable sample_panel"
  unfolding sample_panel_def by (rule reachable_new)

lemma reachable_sample_listening: "reachable sample_listening"
  unfolding sample_listening_def
  by (intro reachable_step [OF _ step_on] reachable_step [OF _ step_repaint]
      reachable_sample_panel)

text \<open>
  C7. In every panel instance and for every event name, at most one dispatch closure is
  attached to the frame; and a dispatch closure that is in the panel's table or attached
  to the frame is there only with the frame in existence and at least one listener
  registered for the event: it is then the one closure attached for the event, and it is
  the closure over the event's listener array.
\<close>

theorem one_dispatch_per_event:
  assumes "reachable p"
  shows "length (attached p ev) \<le> 1 \<and>
         (\<forall>em. (ev, em) \<in> set (emittersOf p) \<or> em \<in> set (attached p ev) \<longrightarrow>
            frame p \<noteq> None \<and> listenersOf p ev \<noteq> [] \<and> attached p ev = [em] \<and>
            (\<exists>r. map_of (listeners p) ev = Some r \<and> em = Emitter r))"
proof -
  have l: "inv_listeners p" and e: "inv_emitters p"
    using reachable_invariant [OF assms] by (simp_all add: invariant_def)
  have 1: "length (attached p ev) \<le> 1"
    by (simp add: attached_eq [OF e] split: option.splits)
  have 2: "frame p \<noteq> None \<and> listenersOf p ev \<noteq> [] \<and> attached p ev = [em] \<and>
            (\<exists>r. map_of (listeners p) ev = Some r \<and> em = Emitter r)"
    if "(ev, em) \<in> set (emittersOf p) \<or> em \<in> set (attached p ev)" for em
  proof -
    have m: "map_of (emittersOf p) ev = Some em"
      using that e by (auto simp add: attached_eq [OF e] inv_emitters_def split: option.splits)
    then have a: "attached p ev = [em]"
      by (simp add: attached_eq [OF e])
    then have f: "frame p \<noteq> None"
      using attached_frame [of p ev] by simp
    from m have "(ev, em) \<in> set (emittersOf p)"
      by (rule map_of_SomeD)
    from emitter_of_event [OF l e this] a f show ?thesis
      by auto
  qed
  from 1 2 show ?thesis by blast
qed

theorem one_dispatch_per_event_witness:
  "reachable sample_listening \<and>
   (''click'', Emitter 0) \<in> set (emittersOf sample_listening) \<and>
   length (attached sample_listening ''click'') \<le> 1 \<and>
   frame sample_listening \<noteq> None \<and>
   listenersOf sample_listening ''click'' \<noteq> [] \<and>
   attached sample_listening ''click'' = [Emitter 0] \<and>
   map_of (listeners sample_listening) ''click'' = Some 0"
proof -
  have a: "(''click'', Emitter 0) \<in> set (emittersOf sample_listening)"
    by (simp add: sample_listening_eval emittersOf_def)
  from one_dispatch_per_event [OF reachable_sample_listening, of "''click''"] a
  have "length (attached sample_listening ''click'') \<le> 1"
    and "frame sample_listening \<noteq> None \<and> listenersOf sample_listening ''click'' \<noteq> [] \<and>
      attached sample_listening ''click'' = [Emitter 0] \<and>
      (\<exists>r. map_of (listeners sample_listening) ''click'' = Some r \<and> Emitter 0 = Emitter r)"
    by blast+
  with reachable_sample_listening a show ?thesis by auto
qed

section \<open>Listeners keep receiving events\<close>

lemma listenersOf_cong:
  "listeners q = listeners p \<Longrightarrow> arrays q = arrays p \<Longrightarrow> listenersOf q ev = listenersOf p ev"
  by (simp add: listenersOf_def split: option.splits)

lemma listenersOf_on:
  assumes "inv_listeners p"
  shows "listenersOf (fst (on p ev cb)) ev' =
           (if ev' = ev \<and> ev \<notin> set objectPrototypeNames then listenersOf p ev @ [cb]
            else listenersOf p ev')"
proof (cases "ev \<in> set objectPrototypeNames")
  case True
  then show ?thesis by (simp add: fst_on)
next
  case False
  have "listenersOf (updateEventEmitters (registered p ev cb)) ev' =
          listenersOf (registered p ev cb) ev'"
    by (rule listenersOf_cong) simp_all
  then show ?thesis
    using False by (simp add: fst_on listenersOf_registered [OF assms])
qed

text \<open>A step only appends to the listeners of an event.\<close>

lemma listenersOf_step:
  assumes "step p q" and "inv_listeners p"
  shows "\<exists>more. listenersOf q ev = listenersOf p ev @ more"
proof -
  have same: "listenersOf q ev = listenersOf p ev"
    if "listeners q = listeners p" "arrays q = arrays p"
    using that by (rule listenersOf_cong)
  from assms(1) show ?thesis
  proof (cases rule: step.cases)
    case (step_on ev' cb)
    then show ?thesis by (simp add: listenersOf_on [OF assms(2)])
  next
    case (step_setOptions opts)
    then show ?thesis using same by simp
  next
    case step_repaint
    then show ?thesis using same by simp
  next
    case step_reflow
    then show ?thesis using same by simp
  next
    case (step_timerTick t)
    then show ?thesis using same by (simp add: timerTick_def)
  next
    case step_windowResize
    then show ?thesis using same by (simp add: windowResize_def)
  next
    case (step_dispatchEvent ev' e)
    then show ?thesis using same by simp
  next
    case (step_layout g)
    then show ?thesis using same by simp
  qed
qed

lemma emittersOf_foldl_mono:
  "set (emittersOf p) \<subseteq> set (emittersOf (foldl updateEmitter p ls))"
proof (induction ls arbitrary: p)
  case Nil
  show ?case by simp
next
  case (Cons en ls)
  show ?case
    using emittersOf_updateEmitter_mono [of p en] Cons [of "updateEmitter p en"] by auto
qed

lemma emittersOf_updateEventEmitters_mono:
  "set (emittersOf p) \<subseteq> set (emittersOf (updateEventEmitters p))"
  by (simp add: updateEventEmitters_def emittersOf_foldl_mono)

lemma emittersOf_repaint_mono: "set (emittersOf p) \<subseteq> set (emittersOf (fst (repaint p)))"
proof (cases p rule: repaint_cases)
  case raises
  then show ?thesis by (simp add: emittersOf_cong [of "prepared p" p])
next
  case (appends c)
  let ?s = "(prepared p)\<lparr>frame := Some (fst (updateStyles (options p)
                 ((the (frame (prepared p)))\<lparr>parentNode := Some c\<rparr>) True))\<rparr>"
  have "emittersOf ?s = emittersOf p"
    by (rule emittersOf_cong) simp
  then show ?thesis
    using appends emittersOf_updateEventEmitters_mono [of ?s] by simp
next
  case (appended f c)
  let ?s = "p\<lparr>frame := Some (fst (updateStyles (options p) f False))\<rparr>"
  have "emittersOf ?s = emittersOf p"
    by (rule emittersOf_cong) simp
  then show ?thesis
    using appended emittersOf_updateEventEmitters_mono [of ?s] by simp
qed

lemma emittersOf_on_mono: "set (emittersOf p) \<subseteq> set (emittersOf (fst (on p ev cb)))"
proof (cases "ev \<in> set objectPrototypeNames")
  case True
  then show ?thesis by (simp add: fst_on)
next
  case False
  have "emittersOf (registered p ev cb) = emittersOf p"
    by (rule emittersOf_cong) simp
  then show ?thesis
    using False emittersOf_updateEventEmitters_mono [of "registered p ev cb"]
    by (simp add: fst_on)
qed

lemma emittersOf_step:
  assumes "step p q"
  shows "set (emittersOf p) \<subseteq> set (emittersOf q)"
proof -
  have same: "emittersOf q = emittersOf p" if "emitters q = emitters p"
    using that by (rule emittersOf_cong)
  from assms show ?thesis
  proof (cases rule: step.cases)
    case step_repaint
    then show ?thesis by (simp add: emittersOf_repaint_mono)
  next
    case (step_on ev cb)
    then show ?thesis by (simp add: emittersOf_on_mono)
  next
    case (step_setOptions opts)
    then show ?thesis using same by simp
  next
    case step_reflow
    then show ?thesis using same by simp
  next
    case (step_timerTick t)
    then show ?thesis using same by (simp add: timerTick_def)
  next
    case step_windowResize
    then show ?thesis using same by (simp add: windowResize_def)
  next
    case (step_dispatchEvent ev' e)
    then show ?thesis using same by simp
  next
    case (step_layout g)
    then show ?thesis using same by simp
  qed
qed

lemma wired_step:
  assumes "step p q" and "invariant p" and "wired p ev pre cb"
  shows "wired q ev pre cb"
proof -
  have q: "invariant q"
    using assms(1,2) by (rule invariant_step)
  have "ev \<in> fst ` set (emittersOf p)"
    using assms(2,3) by (simp add: wired_def invariant_def attached_nonempty_iff)
  then have "ev \<in> fst ` set (emittersOf q)"
    using emittersOf_step [OF assms(1)] by auto
  then have a: "attached q ev \<noteq> []"
    using q by (simp add: invariant_def attached_nonempty_iff)
  obtain post where post: "listenersOf p ev = pre @ cb # post"
    using assms(3) by (auto simp add: wired_def)
  obtain more where "listenersOf q ev = listenersOf p ev @ more"
    using listenersOf_step [OF assms(1), of ev] assms(2) by (auto simp add: invariant_def)
  then have "listenersOf q ev = pre @ cb # (post @ more)"
    by (simp add: post)
  with a show ?thesis
    unfolding wired_def by blast
qed

lemma wired_steps:
  "step\<^sup>*\<^sup>* p q \<Longrightarrow> reachable p \<Longrightarrow> wired p ev pre cb \<Longrightarrow> reachable q \<and> wired q ev pre cb"
proof (induction rule: rtranclp_induct)
  case base
  then show ?case by simp
next
  case (step y z)
  then show ?case
    using wired_step [of y z ev pre cb] reachable_invariant [of y] reachable_step [of y z]
    by blast
qed

lemma wired_invoked:
  assumes "invariant p" and "wired p ev pre cb" and "\<forall>l \<in> set pre. \<not> cb_raises l e"
  shows "invoked p ev e cb"
proof -
  obtain post where post: "listenersOf p ev = pre @ cb # post"
    using assms(2) by (auto simp add: wired_def)
  have "cb \<in> set (forEachCalls (listenersOf p ev) e)"
    unfolding post using assms(3) by (rule forEachCalls_reaches)
  then show ?thesis
    using assms(1,2) dispatchEvent_calls [of p ev e]
    by (simp add: invoked_def wired_def invariant_def)
qed





lemma sample_faulty_eval:
  "fst (on (fst (repaint sample_panel)) ''click'' faulty) =
    \<lparr>panel_id = ''root'',
     options = \<lparr>container = Some 7, opt_id = None, className = None, opt_left = None,
         opt_top = None, opt_width = None, opt_height = None,
         autoResize = Some (Plain True)\<rparr>,
     listeners = [(''click'', 0)], arrays = [[faulty]],
     emitters = Some [(''click'', Emitter 0)],
     frame = Some \<lparr>frame_className = ''graph panel'', parentNode = Some 7,
          style_top = ''0px'', style_left = ''0px'', style_width = ''100%'',
          style_height = ''100%'', offsetTop = 0, offsetLeft = 0,
          offsetWidth = 0, offsetHeight = 0, clientWidth = 0,
          clientHeight = 0, eventListeners = [(''click'', Emitter 0)]\<rparr>,
     watchTimer = None, this_top = None, this_left = None, this_width = None,
     this_height = None, activeTimers = [], nextTimer = 1,
     resizeListeners = 0, reflowRequests = 0, calls = []\<rparr>"
  by (simp add: sample_painted_eval on_def objectPrototypeNames_def
      Let_def updateEventEmitters_def updateEmitter_def)

lemma click_not_inherited: "''click'' \<notin> set objectPrototypeNames"
  by (simp add: objectPrototypeNames_def)

lemma sample_listeners_differ:
  "listener1 \<noteq> faulty" "listener2 \<noteq> faulty" "listener1 \<noteq> listener2"
  "\<not> cb_raises listener1 e" "\<not> cb_raises listener2 e" "cb_raises faulty e"
  by (simp_all add: listener1_def listener2_def faulty_def never_def always_def)









text \<open>
  C10, as stated, fails where a listener registered earlier raises. On the painted
  sample panel with \<open>faulty\<close> registered for \<open>click\<close>, the dispatch closure is attached;
  \<open>listener1\<close> is registered afterwards; the delivery of a click ends at \<open>faulty\<close>, and
  \<open>listener1\<close> is not invoked.
\<close>

theorem late_listener_behind_raising_one:
  "reachable (fst (on (fst (repaint sample_panel)) ''click'' faulty)) \<and>
   attached (fst (on (fst (repaint sample_panel)) ''click'' faulty)) ''click'' = [Emitter 0] \<and>
   snd (on (fst (on (fst (repaint sample_panel)) ''click'' faulty)) ''click'' listener1) = None \<and>
   listenersOf (fst (on (fst (on (fst (repaint sample_panel)) ''click'' faulty))
      ''click'' listener1)) ''click'' = [faulty, listener1] \<and>
   \<not> invoked (fst (on (fst (on (fst (repaint sample_panel)) ''click'' faulty))
      ''click'' listener1)) ''click'' 5 listener1"
proof -
  let ?P = "fst (on (fst (repaint sample_panel)) ''click'' faulty)"
  let ?p2 = "fst (on ?P ''click'' listener1)"
  have r: "reachable ?P"
    by (intro reachable_step [OF _ step_on] reachable_step [OF _ step_repaint]
        reachable_sample_panel)
  have a: "attached ?P ''click'' = [Emitter 0]"
    by (simp add: sample_faulty_eval attached_def)
  have o: "snd (on ?P ''click'' listener1) = None"
    by (simp add: snd_on click_not_inherited)
  have p2: "?p2 =
    \<lparr>panel_id = ''root'',
     options = \<lparr>container = Some 7, opt_id = None, className = None, opt_left = None,
         opt_top = None, opt_width = None, opt_height = None,
         autoResize = Some (Plain True)\<rparr>,
     listeners = [(''click'', 0)], arrays = [[faulty, listener1]],
     emitters = Some [(''click'', Emitter 0)],
     frame = Some \<lparr>frame_className = ''graph panel'', parentNode = Some 7,
          style_top = ''0px'', style_left = ''0px'', style_width = ''100%'',
          style_height = ''100%'', offsetTop = 0, offsetLeft = 0,
          offsetWidth = 0, offsetHeight = 0, clientWidth = 0,
          clientHeight = 0, eventListeners = [(''click'', Emitter 0)]\<rparr>,
     watchTimer = None, this_top = None, this_left = None, this_width = None,
     this_height = None, activeTimers = [], nextTimer = 1,
     resizeListeners = 0, reflowRequests = 0, calls = []\<rparr>"
    by (subst sample_faulty_eval)
       (simp add: on_def objectPrototypeNames_def Let_def updateEventEmitters_def
        updateEmitter_def)
  have l: "listenersOf ?p2 ''click'' = [faulty, listener1]"
    by (simp add: p2 listenersOf_def)
  have i: "\<not> invoked ?p2 ''click'' 5 listener1"
    by (simp add: p2 invoked_def dispatchEvent_def runEmitter_def sample_listeners_differ)
  from r a o l i show ?thesis by blast
qed

text \<open>
  C10, amended. Where a dispatch closure is already attached for an event, a later
  \<open>on\<close> for that event returns and attaches nothing new (the closure attached stays
  the only one), and yet in every state reached afterwards the delivery of an event of
  that name invokes the new listener, provided that none of the listeners registered
  for the name before it raises on that event: the closure reads the listener array at
  the time of the call.
\<close>

theorem late_registration:
  assumes "reachable p" and "attached p ev \<noteq> []"
  shows "snd (on p ev cb) = None \<and>
         attached (fst (on p ev cb)) ev = attached p ev \<and>
         (\<forall>q. step\<^sup>*\<^sup>* (fst (on p ev cb)) q \<longrightarrow>
            ((\<forall>l \<in> set (listenersOf p ev). \<not> cb_raises l e) \<longrightarrow> invoked q ev e cb))"
proof -
  let ?p1 = "fst (on p ev cb)"
  have r1: "reachable ?p1"
    using assms(1) by (auto intro: reachable_step step_on)
  have i: "invariant p" and i1: "invariant ?p1"
    using assms(1) r1 by (simp_all add: reachable_invariant)
  then have e: "inv_emitters p" and e1: "inv_emitters ?p1" and l: "inv_listeners p"
    by (simp_all add: invariant_def)
  obtain em where em: "map_of (emittersOf p) ev = Some em"
    using assms(2) by (auto simp add: attached_eq [OF e] split: option.splits)
  then have in_p: "(ev, em) \<in> set (emittersOf p)"
    by (rule map_of_SomeD)
  from emitter_of_event [OF l e in_p] have n: "ev \<notin> set objectPrototypeNames"
    by blast
  then have 0: "snd (on p ev cb) = None"
    by (simp add: on_returns)
  have "(ev, em) \<in> set (emittersOf ?p1)"
    using in_p emittersOf_on_mono [of p ev cb] by blast
  then have em1: "map_of (emittersOf ?p1) ev = Some em"
    using e1 by (simp add: inv_emitters_def)
  have 1: "attached ?p1 ev = attached p ev"
    by (simp add: attached_eq [OF e] attached_eq [OF e1] em em1)
  have "listenersOf ?p1 ev = listenersOf p ev @ [cb]"
    using l n by (simp add: listenersOf_on)
  then have "\<exists>post. listenersOf ?p1 ev = listenersOf p ev @ cb # post"
    by simp
  moreover have "attached ?p1 ev \<noteq> []"
    using 1 assms(2) by simp
  ultimately have w: "wired ?p1 ev (listenersOf p ev) cb"
    unfolding wired_def by blast
  have 2: "invoked q ev e cb"
    if "step\<^sup>*\<^sup>* ?p1 q" and "\<forall>l \<in> set (listenersOf p ev). \<not> cb_raises l e" for q
  proof -
    from wired_steps [OF that(1) r1 w] have "reachable q" "wired q ev (listenersOf p ev) cb"
      by simp_all
    then show ?thesis
      using wired_invoked [of q ev "listenersOf p ev" cb e] reachable_invariant [of q] that(2)
      by blast
  qed
  from 0 1 2 show ?thesis by blast
qed

theorem late_registration_witness:
  "reachable sample_listening \<and> attached sample_listening ''click'' = [Emitter 0] \<and>
   listenersOf sample_listening ''click'' = [listener1] \<and>
   snd (on sample_listening ''click'' listener2) = None \<and>
   attached (fst (on sample_listening ''click'' listener2)) ''click'' = [Emitter 0] \<and>
   invoked (fst (on sample_listening ''click'' listener2)) ''click'' 5 listener2 \<and>
   invoked (fst (repaint (fst (on sample_listening ''click'' listener2)))) ''click'' 5 listener2"
proof -
  let ?p1 = "fst (on sample_listening ''click'' listener2)"
  have a: "attached sample_listening ''click'' = [Emitter 0]"
    and l: "listenersOf sample_listening ''click'' = [listener1]"
    by (simp_all add: sample_listening_eval attached_def listenersOf_def)
  from a have a': "attached sample_listening ''click'' \<noteq> []"
    by simp
  have none: "\<forall>l \<in> set (listenersOf sample_listening ''click''). \<not> cb_raises l 5"
    by (simp add: l sample_listeners_differ)
  have s0: "step\<^sup>*\<^sup>* ?p1 ?p1"
    by simp
  have s1: "step\<^sup>*\<^sup>* ?p1 (fst (repaint ?p1))"
    by (rule r_into_rtranclp) (rule step_repaint)
  from late_registration [OF reachable_sample_listening a', of listener2 5] s0 s1 a none
  have "snd (on sample_listening ''click'' listener2) = None"
    "attached ?p1 ''click'' = [Emitter 0]" "invoked ?p1 ''click'' 5 listener2"
    "invoked (fst (repaint ?p1)) ''click'' 5 listener2"
    by simp_all
  with reachable_sample_listening a l show ?thesis by blast
qed

end
